theory Spec2Isabelle
  imports Main "HOL-Library.Char_ord" "HOL-Library.List_Lexorder"
begin

section \<open>The addon manager of pyload (src/pyload/manager/addon\_manager.py)\<close>

text \<open>
  The class \<^verbatim>\<open>AddonManager\<close> keeps the list of addon instances, a dictionary from
  class names to instances, the table of methods callable by RPC and the event listeners.
  Its methods are embedded here as functions on a record of that state.  Everything the
  manager does to the outside (calling an addon, starting a thread, writing to the log,
  taking the lock) is appended to a trace kept in the state, so that "invokes", "submits"
  and "logs" are facts about the trace.  An exception is a value: a method that raises
  returns \<open>Some e\<close> together with the state as it was when the exception left it.
\<close>

subsection \<open>Values, exceptions, addons\<close>

text \<open>Python values that cross the manager's interface.  \<open>PObj n\<close> is an opaque object
  (a pyfile, a package) with identity \<open>n\<close>.\<close>

datatype pyval = PNone | PBool bool | PInt int | PStr string | PObj nat

text \<open>Exceptions.  Every constructor is a subclass of Python's \<^verbatim>\<open>Exception\<close>, which is
  what the \<^verbatim>\<open>except Exception\<close> clauses of the source catch.\<close>

datatype exn =
    KeyError string
  | AttributeError string
  | ValueError string
  | TypeError string
  | Exception string

text \<open>The outcome of calling a method with positional arguments.\<close>

type_synonym pymethod = "pyval list \<Rightarrow> exn + pyval"

text \<open>
  An addon instance.  The addon classes are external code; an instance is described by
  what the manager reads from it:
  \<^item> \<open>oid\<close>: the identity of the object (Python compares addons by identity);
  \<^item> \<open>inst_name\<close>: the attribute \<^verbatim>\<open>__name__\<close> of the instance;
  \<^item> \<open>isActivated\<close>: the value its \<^verbatim>\<open>isActivated()\<close> returns;
  \<^item> \<open>threaded\<close>: the list \<^verbatim>\<open>__threaded__\<close>;
  \<^item> \<open>attr\<close>: \<^verbatim>\<open>getattr\<close>, giving for an attribute name the outcome of calling it
    (\<open>None\<close> when the instance has no such attribute);
  \<^item> \<open>info\<close>: the dictionary \<^verbatim>\<open>info\<close>, in insertion order;
  \<^item> \<open>cb\<close>: the handle of its periodic job;
  \<^item> \<open>truth\<close>: the truth value of the object, which \<^verbatim>\<open>if not addon\<close> tests (an
    object is true unless its class says otherwise).
  Addon bodies are described by their outcome only: a call returns a value or raises,
  and does not call back into the manager.  Reading \<^verbatim>\<open>__name__\<close>,
  \<^verbatim>\<open>__threaded__\<close>, \<^verbatim>\<open>info\<close> and \<^verbatim>\<open>cb\<close> and calling \<^verbatim>\<open>isActivated()\<close> are taken to
  succeed, as they do on the base class of the addons.
\<close>

record addon =
  oid :: nat
  inst_name :: string
  isActivated :: bool
  threaded :: "string list"
  attr :: "string \<Rightarrow> pymethod option"
  info :: "(string \<times> pyval) list"
  cb :: pyval
  truth :: bool

text \<open>A call of \<^verbatim>\<open>addRPC\<close>: the full name of the plugin, the name of the method and
  its docstring, which is \<open>None\<close> for a function without one.\<close>

type_synonym rpc = "string \<times> string \<times> string option"

text \<open>A plugin class as the loader returns it: \<^verbatim>\<open>pluginClass.__name__\<close>, and what
  \<^verbatim>\<open>pluginClass(self.pyload, self)\<close> does.  The addons register their methods themselves
  (line 50), on the manager that is passed to the constructor: \<open>exposed\<close> lists the
  calls of \<^verbatim>\<open>addRPC\<close> that the constructor makes on the manager, in order, before it
  returns the instance or raises, which is \<open>construct\<close>.  A class that the loader
  returns as a false value is \<open>None\<close> in the loader's result.\<close>

record plugin_class =
  class_name :: string
  exposed :: "rpc list"
  construct :: "exn + addon"

text \<open>An event listener is a callable; Python's \<^verbatim>\<open>in\<close> and \<^verbatim>\<open>remove\<close> compare
  functions by identity, which is the number here.  Like an addon body, a listener is
  described by the outcome of calling it.  The constructor of the manager registers the
  manager's own \<^verbatim>\<open>manageAddons\<close> for the event \<^verbatim>\<open>pluginConfigChanged\<close>; that
  method is embedded below as the function \<open>manageAddons\<close>, to be applied to the state
  directly.\<close>

datatype listener = Callable nat

subsection \<open>The trace\<close>

datatype level = LDebug | LInfo | LWarning | LError

text \<open>Log messages, one constructor per format string of the source, with the values
  that are formatted into it.\<close>

datatype logmsg =
    ErrorExecutingAddons exn
  | FailedActivating string
  | ActivatedPlugins "string list"
  | DeactivatePlugins "string list"
  | PluginLoaded string
  | PluginUnloaded string
  | RemovedCallback bool
  | ErrorCallingEventHandler string listener "pyval list" exn

datatype effect =
    Log level logmsg
  | Invoke nat string "pyval list"
  | Submit nat string "pyval list"
  | StartNewThread nat string "pyval list"
  | RemoveJob pyval
  | CallListener listener "pyval list"
  | Acquire
  | Release

text \<open>
  \<open>Invoke i m args\<close>: the method \<open>m\<close> of the addon with identity \<open>i\<close> is called inline.
  \<open>Submit i m args\<close>: \<^verbatim>\<open>startThread\<close> hands the bound method \<open>m\<close> of addon \<open>i\<close> to an
  \<^verbatim>\<open>AddonThread\<close>.  \<open>StartNewThread\<close>: \<^verbatim>\<open>start_new_thread\<close>.
  \<open>Acquire\<close>, \<open>Release\<close>: the manager's \<^verbatim>\<open>RLock\<close>.
\<close>

subsection \<open>The manager and its collaborators\<close>

record manager =
  plugins :: "addon list"
  pluginMap :: "string \<rightharpoonup> addon"
  methods :: "string \<rightharpoonup> (string \<rightharpoonup> string)"
  events :: "string \<rightharpoonup> listener list"
  trace :: "effect list"
  next_oid :: nat

text \<open>
  What the manager uses of the core (\<^verbatim>\<open>self.pyload\<close>) and of the modules it imports,
  none of which is part of the manager:
  \<^item> \<open>addonPlugins\<close>: \<^verbatim>\<open>pluginManager.addonPlugins\<close>;
  \<^item> \<open>getPlugin n\<close>: \<^verbatim>\<open>config.getPlugin(n, "activated")\<close>;
  \<^item> \<open>loadClass n\<close>: \<^verbatim>\<open>pluginManager.loadClass("addon", n)\<close>;
  \<^item> \<open>literal_eval\<close>: the function of that name imported from the plugin manager;
  \<^item> \<open>removeJob\<close>: \<^verbatim>\<open>scheduler.removeJob\<close>;
  \<^item> \<open>listener_call f args\<close>: the outcome of calling the listener \<open>f\<close>;
  \<^item> \<open>py_str\<close>: the builtin \<^verbatim>\<open>str\<close> on a value that is not a string.
\<close>

record core =
  addonPlugins :: "string list"
  getPlugin :: "string \<Rightarrow> exn + bool"
  loadClass :: "string \<Rightarrow> exn + plugin_class option"
  literal_eval :: "pyval \<Rightarrow> exn + pyval"
  removeJob :: "pyval \<Rightarrow> bool"
  listener_call :: "listener \<Rightarrow> pyval list \<Rightarrow> exn option"
  py_str :: "pyval \<Rightarrow> string"

definition emit :: "effect \<Rightarrow> manager \<Rightarrow> manager" where
  "emit e s = s\<lparr>trace := trace s @ [e]\<rparr>"

definition log :: "level \<Rightarrow> logmsg \<Rightarrow> manager \<Rightarrow> manager" where
  "log l m s = emit (Log l m) s"

text \<open>Sequencing of two statements: the second runs when the first did not raise.
\<close>

definition and_then ::
  "exn option \<times> manager \<Rightarrow> (manager \<Rightarrow> exn option \<times> manager) \<Rightarrow> exn option \<times> manager" where
  "and_then r k = (case r of (Some e, s) \<Rightarrow> (Some e, s) | (None, s) \<Rightarrow> k s)"

text \<open>\<^verbatim>\<open>for x in xs: body\<close>, left by the first exception.
\<close>

fun for_each ::
  "('a \<Rightarrow> manager \<Rightarrow> exn option \<times> manager) \<Rightarrow> 'a list \<Rightarrow> manager \<Rightarrow> exn option \<times> manager" where
  "for_each body [] s = (None, s)"
| "for_each body (x # xs) s =
     (case body x s of
        (Some e, s') \<Rightarrow> (Some e, s')
      | (None, s') \<Rightarrow> for_each body xs s')"

subsection \<open>The decorators\<close>

text \<open>
  \<^verbatim>\<open>try_catch\<close> (lines 67-74): the wrapped method's exception is logged as an error and
  the wrapper returns normally.
\<close>

definition try_catch ::
  "(manager \<Rightarrow> exn option \<times> manager) \<Rightarrow> manager \<Rightarrow> exn option \<times> manager" where
  "try_catch func s =
     (case func s of
        (Some e, s') \<Rightarrow> (None, log LError (ErrorExecutingAddons e) s')
      | (None, s') \<Rightarrow> (None, s'))"

text \<open>
  Modelled from the spec: the decorator \<^verbatim>\<open>lock\<close> is imported from
  \<^verbatim>\<open>pyload.utils.utils\<close>, which is not among the sources.  The spec has a hook
  "acquire a reentrant mutual-exclusion lock scoped to the whole dispatch call" and
  release it afterwards: the lock is taken before the wrapped method runs and released
  when it returns or raises.
\<close>

definition lock ::
  "(manager \<Rightarrow> exn option \<times> manager) \<Rightarrow> manager \<Rightarrow> exn option \<times> manager" where
  "lock func s = (case func (emit Acquire s) of (r, s') \<Rightarrow> (r, emit Release s'))"

subsection \<open>The event bus (lines 282-313)\<close>

definition addEvent :: "string \<Rightarrow> listener \<Rightarrow> manager \<Rightarrow> manager" where
  "addEvent event func s =
     (case events s event of
        Some fs \<Rightarrow>
          (if func \<notin> set fs then s\<lparr>events := (events s)(event \<mapsto> fs @ [func])\<rparr> else s)
      | None \<Rightarrow> s\<lparr>events := (events s)(event \<mapsto> [func])\<rparr>)"

definition removeEvent :: "string \<Rightarrow> listener \<Rightarrow> manager \<Rightarrow> manager" where
  "removeEvent event func s =
     (case events s event of
        Some fs \<Rightarrow>
          (if func \<in> set fs then s\<lparr>events := (events s)(event \<mapsto> remove1 func fs)\<rparr> else s)
      | None \<Rightarrow> s)"

text \<open>The loop of \<^verbatim>\<open>dispatchEvent\<close>: each call has its own \<^verbatim>\<open>try\<close>; an exception is
  logged as a warning with the event, the listener, the arguments and the exception.\<close>

fun call_listeners ::
  "core \<Rightarrow> string \<Rightarrow> pyval list \<Rightarrow> listener list \<Rightarrow> manager \<Rightarrow> manager" where
  "call_listeners c event args [] s = s"
| "call_listeners c event args (f # fs) s =
     call_listeners c event args fs
       (case listener_call c f args of
          None \<Rightarrow> emit (CallListener f args) s
        | Some e \<Rightarrow>
            log LWarning (ErrorCallingEventHandler event f args e)
              (emit (CallListener f args) s))"

definition dispatchEvent :: "core \<Rightarrow> string \<Rightarrow> pyval list \<Rightarrow> manager \<Rightarrow> manager" where
  "dispatchEvent c event args s =
     (case events s event of
        None \<Rightarrow> s
      | Some fs \<Rightarrow> call_listeners c event args fs s)"

subsection \<open>Calling addons\<close>

text \<open>\<^verbatim>\<open>plugin.m(*args)\<close>, inline: the attribute is looked up, the call is made, its
  result is dropped.\<close>

definition call_method ::
  "addon \<Rightarrow> string \<Rightarrow> pyval list \<Rightarrow> manager \<Rightarrow> exn option \<times> manager" where
  "call_method plugin m args s =
     (case attr plugin m of
        None \<Rightarrow> (Some (AttributeError m), s)
      | Some f \<Rightarrow>
          (case f args of
             Inl e \<Rightarrow> (Some e, emit (Invoke (oid plugin) m args) s)
           | Inr v \<Rightarrow> (None, emit (Invoke (oid plugin) m args) s)))"

text \<open>\<^verbatim>\<open>self.startThread(plugin.m, *args)\<close> (lines 249-250): the bound method is looked
  up and handed to a new \<^verbatim>\<open>AddonThread\<close>; nothing is awaited.\<close>

definition startThread ::
  "addon \<Rightarrow> string \<Rightarrow> pyval list \<Rightarrow> manager \<Rightarrow> exn option \<times> manager" where
  "startThread plugin m args s =
     (case attr plugin m of
        None \<Rightarrow> (Some (AttributeError m), s)
      | Some f \<Rightarrow> (None, emit (Submit (oid plugin) m args) s))"

subsection \<open>The lifecycle hooks (lines 176-247)\<close>

definition coreReady :: "core \<Rightarrow> manager \<Rightarrow> exn option \<times> manager" where
  "coreReady c =
     try_catch (\<lambda>s.
       and_then
         (for_each (\<lambda>plugin s.
            if isActivated plugin then call_method plugin ''coreReady'' [] s
            else (None, s)) (plugins s) s)
         (\<lambda>s. (None, dispatchEvent c ''coreReady'' [] s)))"

definition coreExiting :: "core \<Rightarrow> manager \<Rightarrow> exn option \<times> manager" where
  "coreExiting c =
     try_catch (\<lambda>s.
       and_then
         (for_each (\<lambda>plugin s.
            if isActivated plugin then call_method plugin ''coreExiting'' [] s
            else (None, s)) (plugins s) s)
         (\<lambda>s. (None, dispatchEvent c ''coreExiting'' [] s)))"

definition downloadPreparing :: "core \<Rightarrow> pyval \<Rightarrow> manager \<Rightarrow> exn option \<times> manager" where
  "downloadPreparing c pyfile =
     lock (\<lambda>s.
       and_then
         (for_each (\<lambda>plugin s.
            if isActivated plugin then call_method plugin ''downloadPreparing'' [pyfile] s
            else (None, s)) (plugins s) s)
         (\<lambda>s. (None, dispatchEvent c ''downloadPreparing'' [pyfile] s)))"

definition downloadFinished :: "core \<Rightarrow> pyval \<Rightarrow> manager \<Rightarrow> exn option \<times> manager" where
  "downloadFinished c pyfile =
     lock (\<lambda>s.
       and_then
         (for_each (\<lambda>plugin s.
            if isActivated plugin then
              (if ''downloadFinished'' \<in> set (threaded plugin)
               then startThread plugin ''downloadFinished'' [pyfile] s
               else call_method plugin ''downloadFinished'' [pyfile] s)
            else (None, s)) (plugins s) s)
         (\<lambda>s. (None, dispatchEvent c ''downloadFinished'' [pyfile] s)))"

definition downloadFailed :: "core \<Rightarrow> pyval \<Rightarrow> manager \<Rightarrow> exn option \<times> manager" where
  "downloadFailed c pyfile =
     lock (try_catch (\<lambda>s.
       and_then
         (for_each (\<lambda>plugin s.
            if isActivated plugin then
              (if ''downloadFailed'' \<in> set (threaded plugin)
               then startThread plugin ''downloadFinished'' [pyfile] s
               else call_method plugin ''downloadFailed'' [pyfile] s)
            else (None, s)) (plugins s) s)
         (\<lambda>s. (None, dispatchEvent c ''downloadFailed'' [pyfile] s))))"

definition packageFinished :: "core \<Rightarrow> pyval \<Rightarrow> manager \<Rightarrow> exn option \<times> manager" where
  "packageFinished c package =
     lock (\<lambda>s.
       and_then
         (for_each (\<lambda>plugin s.
            if isActivated plugin then
              (if ''packageFinished'' \<in> set (threaded plugin)
               then startThread plugin ''packageFinished'' [package] s
               else call_method plugin ''packageFinished'' [package] s)
            else (None, s)) (plugins s) s)
         (\<lambda>s. (None, dispatchEvent c ''packageFinished'' [package] s)))"

definition beforeReconnecting :: "core \<Rightarrow> pyval \<Rightarrow> manager \<Rightarrow> exn option \<times> manager" where
  "beforeReconnecting c ip =
     lock (\<lambda>s.
       and_then
         (for_each (\<lambda>plugin s. call_method plugin ''beforeReconnecting'' [ip] s)
            (plugins s) s)
         (\<lambda>s. (None, dispatchEvent c ''beforeReconnecting'' [ip] s)))"

definition afterReconnecting :: "core \<Rightarrow> pyval \<Rightarrow> manager \<Rightarrow> exn option \<times> manager" where
  "afterReconnecting c ip =
     lock (\<lambda>s.
       and_then
         (for_each (\<lambda>plugin s.
            if isActivated plugin then call_method plugin ''afterReconnecting'' [ip] s
            else (None, s)) (plugins s) s)
         (\<lambda>s. (None, dispatchEvent c ''afterReconnecting'' [ip] s)))"

subsection \<open>The RPC table (lines 76-93)\<close>

text \<open>\<^verbatim>\<open>plugin.rpartition(".")[2]\<close>: what follows the last dot, the whole string when
  there is none.\<close>

definition rpartition_tail :: "string \<Rightarrow> string" where
  "rpartition_tail plugin = rev (takeWhile (\<lambda>ch. ch \<noteq> CHR ''.'') (rev plugin))"

text \<open>\<^verbatim>\<open>doc.strip()\<close>, on strings of characters below 256: tab, line feed, vertical
  tab, form feed, carriage return, the four separators, the space, the next-line character
  and the no-break space are removed at both ends.\<close>

definition is_space :: "char \<Rightarrow> bool" where
  "is_space ch =
     (ch \<in> set [CHR 0x09, CHR 0x0A, CHR 0x0B, CHR 0x0C, CHR 0x0D,
                CHR 0x1C, CHR 0x1D, CHR 0x1E, CHR 0x1F, CHR 0x20, CHR 0x85, CHR 0xA0])"

definition strip :: "string \<Rightarrow> string" where
  "strip d = rev (dropWhile is_space (rev (dropWhile is_space d)))"

text \<open>The docstring is \<open>None\<close> for a function without one.\<close>

definition addRPC :: "string \<Rightarrow> string \<Rightarrow> string option \<Rightarrow> manager \<Rightarrow> manager" where
  "addRPC plugin func doc s =
     (let plugin' = rpartition_tail plugin;
          doc' = (case doc of None \<Rightarrow> [] | Some d \<Rightarrow> if d \<noteq> [] then strip d else [])
      in case methods s plugin' of
           Some m \<Rightarrow> s\<lparr>methods := (methods s)(plugin' \<mapsto> m(func \<mapsto> doc'))\<rparr>
         | None \<Rightarrow> s\<lparr>methods := (methods s)(plugin' \<mapsto> [func \<mapsto> doc'])\<rparr>)"

text \<open>The calls of \<^verbatim>\<open>addRPC\<close> that a constructor makes, one after the other.\<close>

definition register :: "rpc list \<Rightarrow> manager \<Rightarrow> manager" where
  "register calls s = foldl (\<lambda>s' (plugin, func, doc). addRPC plugin func doc s') s calls"

text \<open>\<^verbatim>\<open>tuple(literal_eval(x) for x in args)\<close>: left to right, left by the first
  exception.\<close>

fun parse_args :: "core \<Rightarrow> pyval list \<Rightarrow> exn + pyval list" where
  "parse_args c [] = Inr []"
| "parse_args c (x # xs) =
     (case literal_eval c x of
        Inl e \<Rightarrow> Inl e
      | Inr v \<Rightarrow>
          (case parse_args c xs of
             Inl e \<Rightarrow> Inl e
           | Inr vs \<Rightarrow> Inr (v # vs)))"

text \<open>\<^verbatim>\<open>callRPC\<close> returns what the method returns and raises what it raises.  The
  dictionary lookup raises \<^verbatim>\<open>KeyError\<close>, \<^verbatim>\<open>getattr\<close> raises \<^verbatim>\<open>AttributeError\<close>.\<close>

definition callRPC ::
  "core \<Rightarrow> string \<Rightarrow> string \<Rightarrow> pyval list \<Rightarrow> bool \<Rightarrow> manager \<Rightarrow> (exn + pyval) \<times> manager" where
  "callRPC c plugin func args parse s =
     (case (if parse then parse_args c args else Inr args) of
        Inl e \<Rightarrow> (Inl e, s)
      | Inr args' \<Rightarrow>
          (case pluginMap s plugin of
             None \<Rightarrow> (Inl (KeyError plugin), s)
           | Some inst \<Rightarrow>
               (case attr inst func of
                  None \<Rightarrow> (Inl (AttributeError func), s)
                | Some f \<Rightarrow> (f args', emit (Invoke (oid inst) func args') s))))"

subsection \<open>Building the index (lines 95-126)\<close>



subsection \<open>Activation and deactivation (lines 128-174)\<close>

text \<open>The loop of \<^verbatim>\<open>activateAddon\<close>: is an instance of that name in the
  list?\<close>

fun already_loaded :: "string \<Rightarrow> addon list \<Rightarrow> bool" where
  "already_loaded plugin [] = False"
| "already_loaded plugin (inst # insts) =
     (if inst_name inst = plugin then True else already_loaded plugin insts)"

text \<open>\<^verbatim>\<open>start_new_thread(plugin.m, tuple())\<close>.\<close>

definition start_new_thread ::
  "addon \<Rightarrow> string \<Rightarrow> manager \<Rightarrow> exn option \<times> manager" where
  "start_new_thread plugin m s =
     (case attr plugin m of
        None \<Rightarrow> (Some (AttributeError m), s)
      | Some f \<Rightarrow> (None, emit (StartNewThread (oid plugin) m []) s))"

definition activateAddon :: "core \<Rightarrow> string \<Rightarrow> manager \<Rightarrow> exn option \<times> manager" where
  "activateAddon c plugin s =
     (if already_loaded plugin (plugins s) then (None, s)
      else
        (case loadClass c plugin of
           Inl e \<Rightarrow> (Some e, s)
         | Inr None \<Rightarrow> (None, s)
         | Inr (Some pluginClass) \<Rightarrow>
             (let s1 = register (exposed pluginClass) (log LDebug (PluginLoaded plugin) s)
              in case construct pluginClass of
                   Inl e \<Rightarrow> (Some e, s1)
                 | Inr new \<Rightarrow>
                     (let inst = new\<lparr>oid := next_oid s1\<rparr>
                      in start_new_thread inst ''coreReady''
                           (s1\<lparr>plugins := plugins s1 @ [inst],
                               pluginMap := (pluginMap s1)(class_name pluginClass \<mapsto> inst),
                               next_oid := Suc (next_oid s1)\<rparr>)))))"

text \<open>The loop of \<^verbatim>\<open>deactivateAddon\<close>: the last instance of that name,
  if any.  \<^verbatim>\<open>if not addon: return\<close> leaves the method both when there is none and
  when the instance found is a false value.\<close>

fun find_addon :: "string \<Rightarrow> addon list \<Rightarrow> addon option \<Rightarrow> addon option" where
  "find_addon plugin [] addon = addon"
| "find_addon plugin (inst # insts) addon =
     find_addon plugin insts (if inst_name inst = plugin then Some inst else addon)"

text \<open>\<^verbatim>\<open>self.plugins.remove(addon)\<close>: the first element that is this object is taken
  out; \<open>None\<close> is Python's \<^verbatim>\<open>ValueError\<close> when there is none.\<close>

fun list_remove :: "addon \<Rightarrow> addon list \<Rightarrow> addon list option" where
  "list_remove addon [] = None"
| "list_remove addon (inst # insts) =
     (if oid inst = oid addon then Some insts
      else (case list_remove addon insts of
              None \<Rightarrow> None
            | Some insts' \<Rightarrow> Some (inst # insts')))"

definition deactivateAddon :: "core \<Rightarrow> string \<Rightarrow> manager \<Rightarrow> exn option \<times> manager" where
  "deactivateAddon c plugin s =
     (case find_addon plugin (plugins s) None of
        None \<Rightarrow> (None, s)
      | Some addon \<Rightarrow>
          (if \<not> truth addon then (None, s)
           else
             and_then (call_method addon ''unload'' [] (log LDebug (PluginUnloaded plugin) s))
               (\<lambda>s1.
                  (let s2 = log LDebug (RemovedCallback (removeJob c (cb addon)))
                              (emit (RemoveJob (cb addon)) s1)
                   in case list_remove addon (plugins s2) of
                        None \<Rightarrow> (Some (ValueError ''list.remove(x): x not in list''), s2)
                      | Some insts \<Rightarrow>
                          (case pluginMap s2 (inst_name addon) of
                             None \<Rightarrow>
                               (Some (KeyError (inst_name addon)), s2\<lparr>plugins := insts\<rparr>)
                           | Some inst \<Rightarrow>
                               (None,
                                s2\<lparr>plugins := insts,
                                   pluginMap := (pluginMap s2)(inst_name addon := None)\<rparr>))))))"

text \<open>Truth value of a Python value.\<close>

fun truthy :: "pyval \<Rightarrow> bool" where
  "truthy PNone = False"
| "truthy (PBool b) = b"
| "truthy (PInt i) = (i \<noteq> 0)"
| "truthy (PStr t) = (t \<noteq> [])"
| "truthy (PObj n) = True"

text \<open>\<^verbatim>\<open>manageAddons\<close> is what the constructor registers for the event
  \<^verbatim>\<open>pluginConfigChanged\<close>: a change of the setting \<^verbatim>\<open>activated\<close> activates or
  deactivates the plugin, any other setting is ignored.\<close>

definition manageAddons ::
  "core \<Rightarrow> string \<Rightarrow> string \<Rightarrow> pyval \<Rightarrow> manager \<Rightarrow> exn option \<times> manager" where
  "manageAddons c plugin name val s =
     (if name = ''activated'' \<and> truthy val then activateAddon c plugin s
      else if name = ''activated'' \<and> \<not> truthy val then deactivateAddon c plugin s
      else (None, s))"

subsection \<open>Queries (lines 252-280)\<close>

definition activePlugins :: "manager \<Rightarrow> addon list" where
  "activePlugins s = filter isActivated (plugins s)"




section \<open>Describing the trace\<close>

text \<open>The functions of this section are not part of the manager: they say what a call
  appends to the trace, and the lemmas of the next sections relate them to the manager's
  methods.\<close>

text \<open>What a call has appended to the trace: the trace of the state after it, without the
  trace of the state before it.\<close>

definition effects_since :: "manager \<Rightarrow> manager \<Rightarrow> effect list" where
  "effects_since s s' = drop (length (trace s)) (trace s')"

text \<open>The listeners registered for an event, in the order of the list; none when the event has
  no entry.\<close>

definition listeners_of :: "manager \<Rightarrow> string \<Rightarrow> listener list" where
  "listeners_of s event = (case events s event of None \<Rightarrow> [] | Some fs \<Rightarrow> fs)"

text \<open>What the delivery of an event to one listener appends to the trace.\<close>

definition delivery :: "core \<Rightarrow> string \<Rightarrow> pyval list \<Rightarrow> listener \<Rightarrow> effect list" where
  "delivery c event args f =
     (case listener_call c f args of
        None \<Rightarrow> [CallListener f args]
      | Some e \<Rightarrow> [CallListener f args, Log LWarning (ErrorCallingEventHandler event f args e)])"

text \<open>The outcome of \<open>call_method\<close> on one plugin: whether it raises, and what it
  appends to the trace.\<close>

definition call_out :: "addon \<Rightarrow> string \<Rightarrow> pyval list \<Rightarrow> exn option \<times> effect list" where
  "call_out plugin m args =
     (case attr plugin m of
        None \<Rightarrow> (Some (AttributeError m), [])
      | Some f \<Rightarrow>
          (case f args of
             Inl e \<Rightarrow> (Some e, [Invoke (oid plugin) m args])
           | Inr v \<Rightarrow> (None, [Invoke (oid plugin) m args])))"

text \<open>The outcome of \<open>startThread\<close> on one plugin.\<close>

definition thread_out :: "addon \<Rightarrow> string \<Rightarrow> pyval list \<Rightarrow> exn option \<times> effect list" where
  "thread_out plugin m args =
     (case attr plugin m of
        None \<Rightarrow> (Some (AttributeError m), [])
      | Some f \<Rightarrow> (None, [Submit (oid plugin) m args]))"

text \<open>The outcome of a loop over a list whose rounds have the outcomes \<open>g\<close>: the
  rounds run in order up to the first that raises.\<close>

fun loop_out :: "('a \<Rightarrow> exn option \<times> effect list) \<Rightarrow> 'a list \<Rightarrow> exn option \<times> effect list" where
  "loop_out g [] = (None, [])"
| "loop_out g (x # xs) =
     (case g x of
        (Some e, effs) \<Rightarrow> (Some e, effs)
      | (None, effs) \<Rightarrow> (case loop_out g xs of (r, effs') \<Rightarrow> (r, effs @ effs')))"

text \<open>One round of the loop of a hook that calls activated plugins inline.\<close>

definition inline_step :: "string \<Rightarrow> pyval list \<Rightarrow> addon \<Rightarrow> exn option \<times> effect list" where
  "inline_step m args plugin =
     (if isActivated plugin then call_out plugin m args else (None, []))"

text \<open>One round of the loop of a hook that asks \<^verbatim>\<open>__threaded__\<close> for
  the name \<open>m\<close>: the method \<open>sub\<close> is submitted when it is listed,
  \<open>m\<close> is called inline otherwise.\<close>

definition threaded_step ::
  "string \<Rightarrow> string \<Rightarrow> pyval list \<Rightarrow> addon \<Rightarrow> exn option \<times> effect list" where
  "threaded_step m sub args plugin =
     (if isActivated plugin then
        (if m \<in> set (threaded plugin) then thread_out plugin sub args
         else call_out plugin m args)
      else (None, []))"

text \<open>The outcome of a hook body: the loop over the plugins, and the event when the loop did
  not raise.\<close>

definition hook_out ::
  "core \<Rightarrow> string \<Rightarrow> pyval list \<Rightarrow> (addon \<Rightarrow> exn option \<times> effect list) \<Rightarrow> manager \<Rightarrow>
     exn option \<times> effect list" where
  "hook_out c event args g s =
     (case loop_out g (plugins s) of
        (Some e, effs) \<Rightarrow> (Some e, effs)
      | (None, effs) \<Rightarrow>
          (None, effs @ concat (map (delivery c event args) (listeners_of s event))))"

text \<open>The trace of a body wrapped by \<open>try_catch\<close>.\<close>

definition caught :: "exn option \<times> effect list \<Rightarrow> effect list" where
  "caught out =
     (case out of
        (Some e, effs) \<Rightarrow> effs @ [Log LError (ErrorExecutingAddons e)]
      | (None, effs) \<Rightarrow> effs)"

text \<open>The listener calls a trace records, in order, each with its arguments.\<close>

fun listener_calls :: "effect list \<Rightarrow> (listener \<times> pyval list) list" where
  "listener_calls [] = []"
| "listener_calls (CallListener f args # effs) = (f, args) # listener_calls effs"
| "listener_calls (e # effs) = listener_calls effs"

text \<open>The inline calls and the thread submissions a trace records, in order: the identity
  of the addon, the name of the method and the arguments.\<close>

fun invokes :: "effect list \<Rightarrow> (nat \<times> string \<times> pyval list) list" where
  "invokes [] = []"
| "invokes (Invoke i m args # effs) = (i, m, args) # invokes effs"
| "invokes (e # effs) = invokes effs"

fun submits :: "effect list \<Rightarrow> (nat \<times> string \<times> pyval list) list" where
  "submits [] = []"
| "submits (Submit i m args # effs) = (i, m, args) # submits effs"
| "submits (e # effs) = submits effs"

text \<open>A trace in which the lock is neither taken nor released.\<close>

fun lock_free :: "effect list \<Rightarrow> bool" where
  "lock_free [] = True"
| "lock_free (Acquire # effs) = False"
| "lock_free (Release # effs) = False"
| "lock_free (e # effs) = lock_free effs"

text \<open>The call of \<open>m\<close> on the plugin returns: the attribute exists and does not
  raise.\<close>

definition returns :: "addon \<Rightarrow> string \<Rightarrow> pyval list \<Rightarrow> bool" where
  "returns plugin m args =
     (case attr plugin m of
        None \<Rightarrow> False
      | Some f \<Rightarrow> (case f args of Inl e \<Rightarrow> False | Inr v \<Rightarrow> True))"

text \<open>The round of a hook with threads does not raise on the plugin: the method is
  there to be submitted, or its inline call returns.\<close>

definition passes :: "addon \<Rightarrow> string \<Rightarrow> pyval list \<Rightarrow> bool" where
  "passes plugin m args =
     (if m \<in> set (threaded plugin) then attr plugin m \<noteq> None else returns plugin m args)"

text \<open>What a loop appends to the trace when no round raises: one call for each activated
  plugin, or, where the hook looks at \<^verbatim>\<open>__threaded__\<close>, one call or one submission.\<close>

definition inline_trace :: "string \<Rightarrow> pyval list \<Rightarrow> addon list \<Rightarrow> effect list" where
  "inline_trace m args ps = map (\<lambda>q. Invoke (oid q) m args) (filter isActivated ps)"

definition threaded_trace :: "string \<Rightarrow> pyval list \<Rightarrow> addon list \<Rightarrow> effect list" where
  "threaded_trace m args ps =
     map (\<lambda>q. if m \<in> set (threaded q) then Submit (oid q) m args else Invoke (oid q) m args)
       (filter isActivated ps)"

text \<open>The elements of a list that a loop gets to when it stops at the first element
  that is not \<open>ok\<close>: the elements up to that one, that one included.\<close>

fun reached :: "('a \<Rightarrow> bool) \<Rightarrow> 'a list \<Rightarrow> 'a list" where
  "reached ok [] = []"
| "reached ok (x # xs) = (if ok x then x # reached ok xs else [x])"

text \<open>The inline calls of a loop that calls the method \<open>m\<close> of each plugin of the
  list in turn and stops at the first whose call does not return: every plugin up to that
  one is called; that one is called too when it has the method, which then raises.\<close>

definition inline_calls ::
  "string \<Rightarrow> pyval list \<Rightarrow> addon list \<Rightarrow> (nat \<times> string \<times> pyval list) list" where
  "inline_calls m args ps =
     map (\<lambda>p. (oid p, m, args))
       (filter (\<lambda>p. attr p m \<noteq> None) (reached (\<lambda>p. returns p m args) ps))"

text \<open>The inline calls and the submissions of a loop that looks at
  \<^verbatim>\<open>__threaded__\<close> for the method \<open>m\<close> and stops at the first plugin on which the
  round raises: of the plugins it gets to, those that list \<open>m\<close> and have it are
  submitted, those that do not list it and have it are called.\<close>

definition thread_calls ::
  "string \<Rightarrow> pyval list \<Rightarrow> addon list \<Rightarrow> (nat \<times> string \<times> pyval list) list" where
  "thread_calls m args ps =
     map (\<lambda>p. (oid p, m, args))
       (filter (\<lambda>p. m \<notin> set (threaded p) \<and> attr p m \<noteq> None)
          (reached (\<lambda>p. passes p m args) ps))"

definition thread_submits ::
  "string \<Rightarrow> pyval list \<Rightarrow> addon list \<Rightarrow> (nat \<times> string \<times> pyval list) list" where
  "thread_submits m args ps =
     map (\<lambda>p. (oid p, m, args))
       (filter (\<lambda>p. m \<in> set (threaded p) \<and> attr p m \<noteq> None)
          (reached (\<lambda>p. passes p m args) ps))"

text \<open>The identities of the addons a trace calls or submits to a thread.\<close>

fun addressed :: "effect list \<Rightarrow> nat list" where
  "addressed [] = []"
| "addressed (Invoke i m args # effs) = i # addressed effs"
| "addressed (Submit i m args # effs) = i # addressed effs"
| "addressed (e # effs) = addressed effs"



text \<open>The RPC table has an entry for the method of the plugin.\<close>

definition registered :: "manager \<Rightarrow> string \<Rightarrow> string \<Rightarrow> bool" where
  "registered s plugin func =
     (case methods s plugin of None \<Rightarrow> False | Some m \<Rightarrow> m func \<noteq> None)"




section \<open>Example addons and states\<close>

definition returns_none :: pymethod where
  "returns_none args = Inr PNone"

definition raises :: pymethod where
  "raises args = Inl (Exception ''boom'')"

text \<open>The attributes of an addon whose hooks and \<^verbatim>\<open>unload\<close> all return.
\<close>

definition plain_attr :: "string \<Rightarrow> pymethod option" where
  "plain_attr m =
     (if m \<in> set [''coreReady'', ''coreExiting'', ''downloadPreparing'', ''downloadFinished'',
                  ''downloadFailed'', ''packageFinished'', ''beforeReconnecting'',
                  ''afterReconnecting'', ''unload'']
      then Some returns_none else None)"

text \<open>The attributes of an addon whose hooks and \<^verbatim>\<open>unload\<close> all raise.
\<close>

definition failing_attr :: "string \<Rightarrow> pymethod option" where
  "failing_attr m =
     (if m \<in> set [''coreReady'', ''coreExiting'', ''downloadPreparing'', ''downloadFinished'',
                  ''downloadFailed'', ''packageFinished'', ''beforeReconnecting'',
                  ''afterReconnecting'', ''unload'']
      then Some raises else None)"

text \<open>\<open>A\<close> runs its download hooks in threads, \<open>B\<close> runs everything inline, \<open>D\<close> is in
  the index but not activated, \<open>X\<close> raises wherever it is called, \<open>E\<close> is not
  activated and has no info.\<close>

definition addon_A :: addon where
  "addon_A = \<lparr>oid = 0, inst_name = ''A'', isActivated = True,
              threaded = [''downloadFinished'', ''downloadFailed''],
              attr = plain_attr, info = [(''scanned'', PInt 3)], cb = PNone, truth = True\<rparr>"

definition addon_B :: addon where
  "addon_B = \<lparr>oid = 1, inst_name = ''B'', isActivated = True, threaded = [],
              attr = plain_attr, info = [], cb = PNone, truth = True\<rparr>"

definition addon_D :: addon where
  "addon_D = \<lparr>oid = 2, inst_name = ''D'', isActivated = False, threaded = [],
              attr = plain_attr, info = [(''state'', PStr ''idle'')], cb = PNone, truth = True\<rparr>"

definition addon_X :: addon where
  "addon_X = \<lparr>oid = 3, inst_name = ''X'', isActivated = True, threaded = [],
              attr = failing_attr, info = [], cb = PObj 9, truth = True\<rparr>"

definition addon_E :: addon where
  "addon_E = \<lparr>oid = 6, inst_name = ''E'', isActivated = False, threaded = [],
              attr = plain_attr, info = [], cb = PNone, truth = True\<rparr>"

text \<open>A core whose loader knows the classes \<open>A\<close>, \<open>B\<close>, \<open>D\<close>, \<open>X\<close> and \<open>E\<close>, whose
  configuration activates all of them but \<open>B\<close>, and where the listener 1 raises.  The
  constructor of \<open>A\<close> registers the method \<^verbatim>\<open>scan\<close>.\<close>

definition demo_loadClass :: "string \<Rightarrow> exn + plugin_class option" where
  "demo_loadClass n =
     (if n = ''A'' then
        Inr (Some \<lparr>class_name = ''A'',
                   exposed = [(''pyload.plugin.addon.A'', ''scan'', Some ''Scan a file. '')],
                   construct = Inr addon_A\<rparr>)
      else if n = ''B'' then Inr (Some \<lparr>class_name = ''B'', exposed = [], construct = Inr addon_B\<rparr>)
      else if n = ''D'' then Inr (Some \<lparr>class_name = ''D'', exposed = [], construct = Inr addon_D\<rparr>)
      else if n = ''X'' then Inr (Some \<lparr>class_name = ''X'', exposed = [], construct = Inr addon_X\<rparr>)
      else if n = ''E'' then Inr (Some \<lparr>class_name = ''E'', exposed = [], construct = Inr addon_E\<rparr>)
      else Inr None)"

definition demo_core :: core where
  "demo_core =
     \<lparr>addonPlugins = [''A'', ''B'', ''D''],
      getPlugin = (\<lambda>n. Inr (n \<noteq> ''B'')),
      loadClass = demo_loadClass,
      literal_eval = (\<lambda>v. if v = PStr ''1'' then Inr (PInt 1) else Inl (ValueError ''malformed'')),
      removeJob = (\<lambda>j. False),
      listener_call = (\<lambda>f args. if f = Callable 1 then Some (Exception ''boom'') else None),
      py_str = (\<lambda>v. ''3'')\<rparr>"

text \<open>A manager holding the given instances and nothing else.\<close>

definition manager_of :: "addon list \<Rightarrow> manager" where
  "manager_of ps =
     \<lparr>plugins = ps, pluginMap = map_of (map (\<lambda>p. (inst_name p, p)) ps),
      methods = Map.empty, events = Map.empty, trace = [], next_oid = 4\<rparr>"

text \<open>A manager with the listeners 1 and 2 registered, in that order, for the event
  \<open>E\<close>.\<close>

definition bus :: manager where
  "bus = addEvent ''E'' (Callable 2) (addEvent ''E'' (Callable 1) (manager_of []))"

text \<open>A manager holding \<open>B\<close>, then \<open>X\<close>, then \<open>A\<close>.
\<close>

definition mixed :: manager where
  "mixed = manager_of [addon_B, addon_X, addon_A]"

text \<open>A manager whose index holds \<open>D\<close>, which is not activated, and
  \<open>B\<close>.\<close>

definition index_DB :: manager where
  "index_DB = manager_of [addon_D, addon_B]"






section \<open>The trace of each method\<close>

lemma call_listeners_trace:
  "call_listeners c event args fs s =
     s\<lparr>trace := trace s @ concat (map (delivery c event args) fs)\<rparr>"
  by (induction fs arbitrary: s) (simp_all add: delivery_def emit_def log_def split: option.split)

lemma dispatchEvent_trace:
  "dispatchEvent c event args s =
     s\<lparr>trace := trace s @ concat (map (delivery c event args) (listeners_of s event))\<rparr>"
  by (simp add: dispatchEvent_def listeners_of_def call_listeners_trace split: option.split)

lemma call_method_trace:
  "call_method p m args s =
     (fst (call_out p m args), s\<lparr>trace := trace s @ snd (call_out p m args)\<rparr>)"
  by (simp add: call_method_def call_out_def emit_def split: option.split sum.split)

lemma startThread_trace:
  "startThread p m args s =
     (fst (thread_out p m args), s\<lparr>trace := trace s @ snd (thread_out p m args)\<rparr>)"
  by (simp add: startThread_def thread_out_def emit_def split: option.split)

lemma for_each_trace:
  assumes "\<And>x s. body x s = (fst (g x), s\<lparr>trace := trace s @ snd (g x)\<rparr>)"
  shows "for_each body xs s =
     (fst (loop_out g xs), s\<lparr>trace := trace s @ snd (loop_out g xs)\<rparr>)"
proof (induction xs arbitrary: s)
  case Nil
  show ?case by simp
next
  case (Cons x xs)
  obtain r effs where g: "g x = (r, effs)"
    by (cases "g x")
  have b: "body x s = (r, s\<lparr>trace := trace s @ effs\<rparr>)"
    using assms [of x s] g by simp
  show ?case
  proof (cases r)
    case (Some e)
    then show ?thesis
      using b g by simp
  next
    case None
    obtain r' effs' where l: "loop_out g xs = (r', effs')"
      by (cases "loop_out g xs")
    show ?thesis
      using None b g l Cons.IH [of "s\<lparr>trace := trace s @ effs\<rparr>"] by simp
  qed
qed

lemma hook_body_trace:
  assumes "\<And>x s. body x s = (fst (g x), s\<lparr>trace := trace s @ snd (g x)\<rparr>)"
  shows "and_then (for_each body (plugins s) s) (\<lambda>s. (None, dispatchEvent c event args s)) =
     (fst (hook_out c event args g s), s\<lparr>trace := trace s @ snd (hook_out c event args g s)\<rparr>)"
proof -
  obtain r effs where l: "loop_out g (plugins s) = (r, effs)"
    by (cases "loop_out g (plugins s)")
  have "for_each body (plugins s) s = (r, s\<lparr>trace := trace s @ effs\<rparr>)"
    using for_each_trace [of body g "plugins s" s] assms l by simp
  then show ?thesis
    using l
    by (cases r) (simp_all add: and_then_def hook_out_def dispatchEvent_trace listeners_of_def)
qed

lemma inline_body:
  "(if isActivated x then call_method x m args s else (None, s)) =
     (fst (inline_step m args x), s\<lparr>trace := trace s @ snd (inline_step m args x)\<rparr>)"
  by (simp add: inline_step_def call_method_trace)

lemma threaded_body:
  "(if isActivated x then
      (if m \<in> set (threaded x) then startThread x sub args s else call_method x m args s)
    else (None, s)) =
     (fst (threaded_step m sub args x), s\<lparr>trace := trace s @ snd (threaded_step m sub args x)\<rparr>)"
  by (simp add: threaded_step_def call_method_trace startThread_trace)

lemma inline_hook_trace:
  "and_then
     (for_each (\<lambda>plugin s. if isActivated plugin then call_method plugin m args s else (None, s))
        (plugins s) s)
     (\<lambda>s. (None, dispatchEvent c event args' s)) =
   (fst (hook_out c event args' (inline_step m args) s),
    s\<lparr>trace := trace s @ snd (hook_out c event args' (inline_step m args) s)\<rparr>)"
  by (rule hook_body_trace) (rule inline_body)

lemma threaded_hook_trace:
  "and_then
     (for_each (\<lambda>plugin s.
        if isActivated plugin then
          (if m \<in> set (threaded plugin) then startThread plugin sub args s
           else call_method plugin m args s)
        else (None, s)) (plugins s) s)
     (\<lambda>s. (None, dispatchEvent c event args' s)) =
   (fst (hook_out c event args' (threaded_step m sub args) s),
    s\<lparr>trace := trace s @ snd (hook_out c event args' (threaded_step m sub args) s)\<rparr>)"
  by (rule hook_body_trace) (rule threaded_body)

lemma every_hook_trace:
  "and_then
     (for_each (\<lambda>plugin s. call_method plugin m args s) (plugins s) s)
     (\<lambda>s. (None, dispatchEvent c event args' s)) =
   (fst (hook_out c event args' (\<lambda>plugin. call_out plugin m args) s),
    s\<lparr>trace := trace s @ snd (hook_out c event args' (\<lambda>plugin. call_out plugin m args) s)\<rparr>)"
  by (rule hook_body_trace) (rule call_method_trace)

lemma listeners_of_trace [simp]:
  "listeners_of (s\<lparr>trace := t\<rparr>) event = listeners_of s event"
  by (simp add: listeners_of_def)

lemma hook_out_emit [simp]:
  "hook_out c event args g (emit e s) = hook_out c event args g s"
  by (cases "loop_out g (plugins s)") (simp add: hook_out_def emit_def split: option.split)

lemma trace_emit [simp]: "trace (emit e s) = trace s @ [e]"
  by (simp add: emit_def)

lemma emit_trace_update [simp]:
  "emit e (s\<lparr>trace := t\<rparr>) = s\<lparr>trace := t @ [e]\<rparr>"
  "(emit e s)\<lparr>trace := t\<rparr> = s\<lparr>trace := t\<rparr>"
  by (simp_all add: emit_def)

lemma downloadPreparing_trace:
  "downloadPreparing c pyfile s =
     (fst (hook_out c ''downloadPreparing'' [pyfile] (inline_step ''downloadPreparing'' [pyfile]) s),
      s\<lparr>trace := trace s @ Acquire #
         snd (hook_out c ''downloadPreparing'' [pyfile] (inline_step ''downloadPreparing'' [pyfile]) s)
         @ [Release]\<rparr>)"
  by (simp add: downloadPreparing_def lock_def inline_hook_trace)

lemma downloadFinished_trace:
  "downloadFinished c pyfile s =
     (fst (hook_out c ''downloadFinished'' [pyfile]
             (threaded_step ''downloadFinished'' ''downloadFinished'' [pyfile]) s),
      s\<lparr>trace := trace s @ Acquire #
         snd (hook_out c ''downloadFinished'' [pyfile]
                (threaded_step ''downloadFinished'' ''downloadFinished'' [pyfile]) s)
         @ [Release]\<rparr>)"
  by (simp add: downloadFinished_def lock_def threaded_hook_trace)

lemma packageFinished_trace:
  "packageFinished c package s =
     (fst (hook_out c ''packageFinished'' [package]
             (threaded_step ''packageFinished'' ''packageFinished'' [package]) s),
      s\<lparr>trace := trace s @ Acquire #
         snd (hook_out c ''packageFinished'' [package]
                (threaded_step ''packageFinished'' ''packageFinished'' [package]) s)
         @ [Release]\<rparr>)"
  by (simp add: packageFinished_def lock_def threaded_hook_trace)

lemma afterReconnecting_trace:
  "afterReconnecting c ip s =
     (fst (hook_out c ''afterReconnecting'' [ip] (inline_step ''afterReconnecting'' [ip]) s),
      s\<lparr>trace := trace s @ Acquire #
         snd (hook_out c ''afterReconnecting'' [ip] (inline_step ''afterReconnecting'' [ip]) s)
         @ [Release]\<rparr>)"
  by (simp add: afterReconnecting_def lock_def inline_hook_trace)

lemma beforeReconnecting_trace:
  "beforeReconnecting c ip s =
     (fst (hook_out c ''beforeReconnecting'' [ip]
             (\<lambda>plugin. call_out plugin ''beforeReconnecting'' [ip]) s),
      s\<lparr>trace := trace s @ Acquire #
         snd (hook_out c ''beforeReconnecting'' [ip]
                (\<lambda>plugin. call_out plugin ''beforeReconnecting'' [ip]) s)
         @ [Release]\<rparr>)"
  by (simp add: beforeReconnecting_def lock_def every_hook_trace)

lemma coreReady_trace:
  "coreReady c s =
     (None, s\<lparr>trace := trace s @
         caught (hook_out c ''coreReady'' [] (inline_step ''coreReady'' []) s)\<rparr>)"
  by (cases "hook_out c ''coreReady'' [] (inline_step ''coreReady'' []) s")
     (simp add: coreReady_def try_catch_def inline_hook_trace caught_def log_def
           split: option.split)

lemma coreExiting_trace:
  "coreExiting c s =
     (None, s\<lparr>trace := trace s @
         caught (hook_out c ''coreExiting'' [] (inline_step ''coreExiting'' []) s)\<rparr>)"
  by (cases "hook_out c ''coreExiting'' [] (inline_step ''coreExiting'' []) s")
     (simp add: coreExiting_def try_catch_def inline_hook_trace caught_def log_def
           split: option.split)

lemma downloadFailed_trace:
  "downloadFailed c pyfile s =
     (None, s\<lparr>trace := trace s @ Acquire #
         caught (hook_out c ''downloadFailed'' [pyfile]
                   (threaded_step ''downloadFailed'' ''downloadFinished'' [pyfile]) s)
         @ [Release]\<rparr>)"
  by (cases "hook_out c ''downloadFailed'' [pyfile]
               (threaded_step ''downloadFailed'' ''downloadFinished'' [pyfile]) s")
     (simp add: downloadFailed_def lock_def try_catch_def threaded_hook_trace caught_def log_def
           split: option.split)

subsection \<open>The event bus\<close>

lemma effects_since_append [simp]:
  "effects_since s (s\<lparr>trace := trace s @ effs\<rparr>) = effs"
  by (simp add: effects_since_def)

lemma effects_since_pair [simp]:
  "effects_since s (snd (r, s\<lparr>trace := trace s @ effs\<rparr>)) = effs"
  by (simp add: effects_since_def)

lemma listener_calls_append:
  "listener_calls (xs @ ys) = listener_calls xs @ listener_calls ys"
  by (induction xs rule: listener_calls.induct) simp_all

lemma listener_calls_delivery:
  "listener_calls (concat (map (delivery c event args) fs)) = map (\<lambda>f. (f, args)) fs"
  by (induction fs) (simp_all add: listener_calls_append delivery_def split: option.split)

lemma warning_in_delivery:
  "f \<in> set fs \<Longrightarrow> listener_call c f args = Some e \<Longrightarrow>
     Log LWarning (ErrorCallingEventHandler event f args e)
       \<in> set (concat (map (delivery c event args) fs))"
  by (induction fs) (auto simp: delivery_def)

lemma listeners_of_addEvent:
  "listeners_of (addEvent event f s) event' =
     (if event' = event then
        (if f \<in> set (listeners_of s event) then listeners_of s event
         else listeners_of s event @ [f])
      else listeners_of s event')"
  by (simp add: listeners_of_def addEvent_def split: option.split)

lemma listeners_of_removeEvent:
  "listeners_of (removeEvent event f s) event' =
     (if event' = event then remove1 f (listeners_of s event) else listeners_of s event')"
  by (simp add: listeners_of_def removeEvent_def remove1_idem split: option.split)


lemma distinct_removeEvent:
  "distinct (listeners_of s event') \<Longrightarrow> distinct (listeners_of (removeEvent event f s) event')"
  by (auto simp: listeners_of_removeEvent)

subsection \<open>The lock\<close>

lemma lock_free_append [simp]: "lock_free (xs @ ys) = (lock_free xs \<and> lock_free ys)"
  by (induction xs rule: lock_free.induct) simp_all

lemma lock_free_delivery: "lock_free (concat (map (delivery c event args) fs))"
  by (induction fs) (simp_all add: delivery_def split: option.split)

lemma lock_free_call_out: "lock_free (snd (call_out p m args))"
  by (simp add: call_out_def split: option.split sum.split)

lemma lock_free_thread_out: "lock_free (snd (thread_out p m args))"
  by (simp add: thread_out_def split: option.split)

lemma lock_free_inline_step: "lock_free (snd (inline_step m args p))"
  by (simp add: inline_step_def lock_free_call_out)

lemma lock_free_threaded_step: "lock_free (snd (threaded_step m sub args p))"
  by (simp add: threaded_step_def lock_free_call_out lock_free_thread_out)

lemma lock_free_loop_out:
  assumes "\<And>x. lock_free (snd (g x))"
  shows "lock_free (snd (loop_out g xs))"
proof (induction xs)
  case Nil
  show ?case by simp
next
  case (Cons x xs)
  then show ?case
    using assms [of x]
    by (cases "g x"; cases "loop_out g xs") (auto split: option.split)
qed

lemma lock_free_hook_out:
  assumes "\<And>x. lock_free (snd (g x))"
  shows "lock_free (snd (hook_out c event args g s))"
  using lock_free_loop_out [of g "plugins s", OF assms]
  by (cases "loop_out g (plugins s)") (auto simp: hook_out_def lock_free_delivery split: option.split)

lemma lock_free_caught: "lock_free (snd out) \<Longrightarrow> lock_free (caught out)"
  by (cases out) (auto simp: caught_def split: option.split)

subsection \<open>Loops that return, loops that raise\<close>

lemma loop_out_raise:
  assumes "\<And>x. x \<in> set before \<Longrightarrow> fst (g x) = None" and "g p = (Some e, effs)"
  shows "loop_out g (before @ p # rest) = (Some e, concat (map (\<lambda>x. snd (g x)) before) @ effs)"
  using assms(1)
proof (induction before)
  case Nil
  show ?case using assms(2) by simp
next
  case (Cons x xs)
  have "fst (g x) = None"
    using Cons.prems by simp
  then obtain effs' where "g x = (None, effs')"
    by (cases "g x") simp
  moreover have "loop_out g (xs @ p # rest) = (Some e, concat (map (\<lambda>x. snd (g x)) xs) @ effs)"
    using Cons by simp
  ultimately show ?case by simp
qed

lemma call_out_returns:
  "returns q m args \<Longrightarrow> call_out q m args = (None, [Invoke (oid q) m args])"
  by (simp add: returns_def call_out_def split: option.splits sum.splits)

lemma call_out_raises:
  "attr p m = Some f \<Longrightarrow> f args = Inl e \<Longrightarrow> call_out p m args = (Some e, [Invoke (oid p) m args])"
  by (simp add: call_out_def)

lemma inline_step_returns:
  "(isActivated q \<longrightarrow> returns q m args) \<Longrightarrow>
     inline_step m args q = (None, if isActivated q then [Invoke (oid q) m args] else [])"
  by (simp add: inline_step_def call_out_returns)

lemma threaded_step_passes:
  "(isActivated q \<longrightarrow> passes q m args) \<Longrightarrow>
     threaded_step m m args q =
       (None, if isActivated q then
                [if m \<in> set (threaded q) then Submit (oid q) m args else Invoke (oid q) m args]
              else [])"
  by (auto simp: threaded_step_def passes_def call_out_returns thread_out_def)

lemma concat_guarded: "concat (map (\<lambda>q. if P q then [h q] else []) xs) = map h (filter P xs)"
  by (induction xs) simp_all

lemma inline_loop_raise:
  assumes "\<forall>q\<in>set before. isActivated q \<longrightarrow> returns q m args"
    and "isActivated p" and "attr p m = Some f" and "f args = Inl e"
  shows "loop_out (inline_step m args) (before @ p # rest) =
     (Some e, inline_trace m args before @ [Invoke (oid p) m args])"
proof -
  have q: "fst (inline_step m args x) = None" if "x \<in> set before" for x
    using assms(1) that by (simp add: inline_step_returns)
  have r: "inline_step m args p = (Some e, [Invoke (oid p) m args])"
    using assms(2-4) by (simp add: inline_step_def call_out_raises)
  have "loop_out (inline_step m args) (before @ p # rest) =
      (Some e, concat (map (\<lambda>x. snd (inline_step m args x)) before) @ [Invoke (oid p) m args])"
    using q r by (rule loop_out_raise)
  moreover have "map (\<lambda>x. snd (inline_step m args x)) before =
      map (\<lambda>q. if isActivated q then [Invoke (oid q) m args] else []) before"
    using assms(1) by (intro map_cong) (simp_all add: inline_step_returns)
  ultimately show ?thesis
    by (simp add: concat_guarded inline_trace_def)
qed

lemma threaded_loop_raise:
  assumes "\<forall>q\<in>set before. isActivated q \<longrightarrow> passes q m args"
    and "isActivated p" and "m \<notin> set (threaded p)" and "attr p m = Some f" and "f args = Inl e"
  shows "loop_out (threaded_step m m args) (before @ p # rest) =
     (Some e, threaded_trace m args before @ [Invoke (oid p) m args])"
proof -
  have q: "fst (threaded_step m m args x) = None" if "x \<in> set before" for x
    using assms(1) that by (simp add: threaded_step_passes)
  have r: "threaded_step m m args p = (Some e, [Invoke (oid p) m args])"
    using assms(2-5) by (simp add: threaded_step_def call_out_raises)
  have "loop_out (threaded_step m m args) (before @ p # rest) =
      (Some e, concat (map (\<lambda>x. snd (threaded_step m m args x)) before) @ [Invoke (oid p) m args])"
    using q r by (rule loop_out_raise)
  moreover have "map (\<lambda>x. snd (threaded_step m m args x)) before =
      map (\<lambda>q. if isActivated q then
                  [if m \<in> set (threaded q) then Submit (oid q) m args else Invoke (oid q) m args]
                else []) before"
    using assms(1) by (intro map_cong) (simp_all add: threaded_step_passes)
  ultimately show ?thesis
    by (simp add: concat_guarded threaded_trace_def)
qed

lemma hook_out_raise:
  "loop_out g (plugins s) = (Some e, effs) \<Longrightarrow> hook_out c event args g s = (Some e, effs)"
  by (simp add: hook_out_def)

subsection \<open>Which addons a hook reaches\<close>

lemma addressed_append [simp]: "addressed (xs @ ys) = addressed xs @ addressed ys"
  by (induction xs rule: addressed.induct) simp_all

lemma invokes_append [simp]: "invokes (xs @ ys) = invokes xs @ invokes ys"
  by (induction xs rule: invokes.induct) simp_all

lemma addressed_delivery [simp]: "addressed (concat (map (delivery c event args) fs)) = []"
  by (induction fs) (simp_all add: delivery_def split: option.split)

lemma invokes_delivery [simp]: "invokes (concat (map (delivery c event args) fs)) = []"
  by (induction fs) (simp_all add: delivery_def split: option.split)

lemma invokes_calls [simp]:
  "invokes (map (\<lambda>q. Invoke (oid q) m args) ps) = map (\<lambda>q. (oid q, m, args)) ps"
  by (induction ps) simp_all

lemma addressed_caught [simp]: "addressed (caught out) = addressed (snd out)"
  by (cases out) (simp add: caught_def split: option.split)

lemma addressed_call_out: "set (addressed (snd (call_out p m args))) \<subseteq> {oid p}"
  by (simp add: call_out_def split: option.split sum.split)

lemma addressed_thread_out: "set (addressed (snd (thread_out p m args))) \<subseteq> {oid p}"
  by (simp add: thread_out_def split: option.split)


lemma addressed_threaded_step:
  "set (addressed (snd (threaded_step m sub args p))) \<subseteq> oid ` set (filter isActivated [p])"
  using addressed_call_out [of p m args] addressed_thread_out [of p sub args]
  by (simp add: threaded_step_def)

lemma addressed_loop_out:
  assumes "\<And>x. set (addressed (snd (g x))) \<subseteq> oid ` set (filter isActivated [x])"
  shows "set (addressed (snd (loop_out g xs))) \<subseteq> oid ` set (filter isActivated xs)"
proof (induction xs)
  case Nil
  show ?case by simp
next
  case (Cons x xs)
  obtain r effs where g: "g x = (r, effs)"
    by (cases "g x")
  obtain r' effs' where l: "loop_out g xs = (r', effs')"
    by (cases "loop_out g xs")
  have 1: "set (addressed effs) \<subseteq> oid ` set (filter isActivated [x])"
    using assms [of x] g by simp
  have 2: "set (addressed effs') \<subseteq> oid ` set (filter isActivated xs)"
    using Cons.IH l by simp
  have "set (addressed (snd (loop_out g (x # xs)))) \<subseteq> set (addressed effs) \<union> set (addressed effs')"
    using g l by (cases r) auto
  then show ?case
    using 1 2 by (auto split: if_splits)
qed

lemma addressed_hook_out:
  assumes "\<And>x. set (addressed (snd (g x))) \<subseteq> oid ` set (filter isActivated [x])"
  shows "set (addressed (snd (hook_out c event args g s))) \<subseteq> oid ` set (activePlugins s)"
  using addressed_loop_out [of g "plugins s", OF assms]
  by (cases "loop_out g (plugins s)")
     (auto simp: hook_out_def activePlugins_def split: option.split)


lemma addressed_threaded_hook:
  "set (addressed (snd (hook_out c event args' (threaded_step m sub args) s)))
     \<subseteq> oid ` set (activePlugins s)"
  by (rule addressed_hook_out) (rule addressed_threaded_step)

lemma invokes_hook_out:
  "invokes (snd (hook_out c event args g s)) = invokes (snd (loop_out g (plugins s)))"
  by (cases "loop_out g (plugins s)") (simp add: hook_out_def split: option.split)

subsection \<open>The instances a loop reaches\<close>

lemma submits_append [simp]: "submits (xs @ ys) = submits xs @ submits ys"
  by (induction xs rule: submits.induct) simp_all

lemma submits_delivery [simp]: "submits (concat (map (delivery c event args) fs)) = []"
  by (induction fs) (simp_all add: delivery_def split: option.split)

lemma invokes_caught [simp]: "invokes (caught out) = invokes (snd out)"
  by (cases out) (simp add: caught_def split: option.split)

lemma submits_caught [simp]: "submits (caught out) = submits (snd out)"
  by (cases out) (simp add: caught_def split: option.split)

lemma submits_hook_out:
  "submits (snd (hook_out c event args g s)) = submits (snd (loop_out g (plugins s)))"
  by (cases "loop_out g (plugins s)") (simp add: hook_out_def split: option.split)

lemma invokes_concat: "invokes (concat xss) = concat (map invokes xss)"
  by (induction xss) simp_all

lemma submits_concat: "submits (concat xss) = concat (map submits xss)"
  by (induction xss) simp_all

lemma loop_out_reached:
  "snd (loop_out g ps) = concat (map (\<lambda>p. snd (g p)) (reached (\<lambda>p. fst (g p) = None) ps))"
proof (induction ps)
  case Nil
  show ?case by simp
next
  case (Cons p ps)
  obtain r effs where g: "g p = (r, effs)"
    by (cases "g p")
  obtain r' effs' where l: "loop_out g ps = (r', effs')"
    by (cases "loop_out g ps")
  show ?case
    using Cons.IH g l by (cases r) simp_all
qed

lemma reached_all: "\<forall>p\<in>set ps. ok p \<Longrightarrow> reached ok ps = ps"
  by (induction ps) simp_all

lemma reached_filter:
  "filter P (reached (\<lambda>p. P p \<longrightarrow> ok p) ps) = reached ok (filter P ps)"
  by (induction ps) simp_all


lemma loop_out_cong:
  "(\<And>p. p \<in> set ps \<Longrightarrow> g p = h p) \<Longrightarrow> loop_out g ps = loop_out h ps"
  by (induction ps) (simp_all split: prod.split option.split)

lemma invokes_loop:
  assumes "\<And>p. invokes (snd (g p)) = (if P p then [h p] else [])"
  shows "invokes (snd (loop_out g ps)) =
     map h (filter P (reached (\<lambda>p. fst (g p) = None) ps))"
  by (simp add: loop_out_reached invokes_concat comp_def assms concat_guarded)

lemma submits_loop:
  assumes "\<And>p. submits (snd (g p)) = (if P p then [h p] else [])"
  shows "submits (snd (loop_out g ps)) =
     map h (filter P (reached (\<lambda>p. fst (g p) = None) ps))"
  by (simp add: loop_out_reached submits_concat comp_def assms concat_guarded)

lemma call_out_fst: "(fst (call_out p m args) = None) = returns p m args"
  by (simp add: call_out_def returns_def split: option.split sum.split)

lemma call_out_invokes:
  "invokes (snd (call_out p m args)) = (if attr p m \<noteq> None then [(oid p, m, args)] else [])"
  by (simp add: call_out_def split: option.split sum.split)

lemma call_out_submits: "submits (snd (call_out p m args)) = []"
  by (simp add: call_out_def split: option.split sum.split)

lemma inline_step_fst:
  "(fst (inline_step m args p) = None) = (isActivated p \<longrightarrow> returns p m args)"
  by (simp add: inline_step_def call_out_fst)

lemma inline_step_invokes:
  "invokes (snd (inline_step m args p)) =
     (if isActivated p \<and> attr p m \<noteq> None then [(oid p, m, args)] else [])"
  by (simp add: inline_step_def call_out_invokes)

lemma threaded_step_fst:
  "(fst (threaded_step m m args p) = None) = (isActivated p \<longrightarrow> passes p m args)"
  by (simp add: threaded_step_def passes_def call_out_fst thread_out_def split: option.split)

lemma threaded_step_invokes:
  "invokes (snd (threaded_step m m args p)) =
     (if isActivated p \<and> m \<notin> set (threaded p) \<and> attr p m \<noteq> None then [(oid p, m, args)]
      else [])"
  by (simp add: threaded_step_def call_out_invokes thread_out_def split: option.split)

lemma threaded_step_submits:
  "submits (snd (threaded_step m m args p)) =
     (if isActivated p \<and> m \<in> set (threaded p) \<and> attr p m \<noteq> None then [(oid p, m, args)]
      else [])"
  by (simp add: threaded_step_def call_out_submits thread_out_def split: option.split)

lemma filter_conj: "filter (\<lambda>p. P p \<and> Q p) xs = filter Q (filter P xs)"
  by (induction xs) simp_all

lemma every_loop_calls:
  "invokes (snd (loop_out (\<lambda>p. call_out p m args) ps)) = inline_calls m args ps"
  "submits (snd (loop_out (\<lambda>p. call_out p m args) ps)) = []"
proof -
  show "invokes (snd (loop_out (\<lambda>p. call_out p m args) ps)) = inline_calls m args ps"
    using invokes_loop [of "\<lambda>p. call_out p m args" "\<lambda>p. attr p m \<noteq> None"
        "\<lambda>p. (oid p, m, args)" ps, OF call_out_invokes]
    by (simp add: call_out_fst inline_calls_def)
  show "submits (snd (loop_out (\<lambda>p. call_out p m args) ps)) = []"
    by (simp add: loop_out_reached submits_concat comp_def call_out_submits)
qed

lemma inline_loop_calls:
  "invokes (snd (loop_out (inline_step m args) ps)) = inline_calls m args (filter isActivated ps)"
  "submits (snd (loop_out (inline_step m args) ps)) = []"
proof -
  have "invokes (snd (loop_out (inline_step m args) ps)) =
      map (\<lambda>p. (oid p, m, args))
        (filter (\<lambda>p. isActivated p \<and> attr p m \<noteq> None)
           (reached (\<lambda>p. isActivated p \<longrightarrow> returns p m args) ps))"
    using invokes_loop [of "inline_step m args" "\<lambda>p. isActivated p \<and> attr p m \<noteq> None"
        "\<lambda>p. (oid p, m, args)" ps, OF inline_step_invokes]
    by (simp add: inline_step_fst)
  then show "invokes (snd (loop_out (inline_step m args) ps)) =
      inline_calls m args (filter isActivated ps)"
    by (simp add: filter_conj reached_filter inline_calls_def)
  show "submits (snd (loop_out (inline_step m args) ps)) = []"
    by (simp add: loop_out_reached submits_concat comp_def inline_step_def call_out_submits)
qed

lemma threaded_loop_calls:
  "invokes (snd (loop_out (threaded_step m m args) ps)) =
     thread_calls m args (filter isActivated ps)"
  "submits (snd (loop_out (threaded_step m m args) ps)) =
     thread_submits m args (filter isActivated ps)"
proof -
  have "invokes (snd (loop_out (threaded_step m m args) ps)) =
      map (\<lambda>p. (oid p, m, args))
        (filter (\<lambda>p. isActivated p \<and> m \<notin> set (threaded p) \<and> attr p m \<noteq> None)
           (reached (\<lambda>p. isActivated p \<longrightarrow> passes p m args) ps))"
    using invokes_loop [of "threaded_step m m args"
        "\<lambda>p. isActivated p \<and> m \<notin> set (threaded p) \<and> attr p m \<noteq> None"
        "\<lambda>p. (oid p, m, args)" ps, OF threaded_step_invokes]
    by (simp add: threaded_step_fst)
  then show "invokes (snd (loop_out (threaded_step m m args) ps)) =
     thread_calls m args (filter isActivated ps)"
    by (simp add: filter_conj [of isActivated] reached_filter thread_calls_def)
  have "submits (snd (loop_out (threaded_step m m args) ps)) =
      map (\<lambda>p. (oid p, m, args))
        (filter (\<lambda>p. isActivated p \<and> m \<in> set (threaded p) \<and> attr p m \<noteq> None)
           (reached (\<lambda>p. isActivated p \<longrightarrow> passes p m args) ps))"
    using submits_loop [of "threaded_step m m args"
        "\<lambda>p. isActivated p \<and> m \<in> set (threaded p) \<and> attr p m \<noteq> None"
        "\<lambda>p. (oid p, m, args)" ps, OF threaded_step_submits]
    by (simp add: threaded_step_fst)
  then show "submits (snd (loop_out (threaded_step m m args) ps)) =
     thread_submits m args (filter isActivated ps)"
    by (simp add: filter_conj [of isActivated] reached_filter thread_submits_def)
qed

lemma unthreaded_loop:
  assumes "\<forall>p\<in>set (filter isActivated ps). m \<notin> set (threaded p)"
  shows "loop_out (threaded_step m sub args) ps = loop_out (inline_step m args) ps"
  using assms by (intro loop_out_cong) (simp add: threaded_step_def inline_step_def)

lemma inline_calls_all:
  assumes "\<forall>p\<in>set ps. returns p m args"
  shows "inline_calls m args ps = map (\<lambda>p. (oid p, m, args)) ps"
proof -
  have "\<forall>p\<in>set ps. attr p m \<noteq> None"
    using assms by (auto simp: returns_def split: option.splits)
  then have "filter (\<lambda>p. attr p m \<noteq> None) ps = ps"
    by (simp add: filter_id_conv)
  then show ?thesis
    using assms by (simp add: inline_calls_def reached_all)
qed

lemma inline_hook_calls:
  "invokes (snd (hook_out c event args' (inline_step m args) s)) =
     inline_calls m args (activePlugins s)"
  "submits (snd (hook_out c event args' (inline_step m args) s)) = []"
  by (simp_all add: invokes_hook_out submits_hook_out inline_loop_calls activePlugins_def)

lemma threaded_hook_calls:
  "invokes (snd (hook_out c event args' (threaded_step m m args) s)) =
     thread_calls m args (activePlugins s)"
  "submits (snd (hook_out c event args' (threaded_step m m args) s)) =
     thread_submits m args (activePlugins s)"
  by (simp_all add: invokes_hook_out submits_hook_out threaded_loop_calls activePlugins_def)

lemma every_hook_calls:
  "invokes (snd (hook_out c event args' (\<lambda>p. call_out p m args) s)) =
     inline_calls m args (plugins s)"
  "submits (snd (hook_out c event args' (\<lambda>p. call_out p m args) s)) = []"
  by (simp_all add: invokes_hook_out submits_hook_out every_loop_calls)

lemma unthreaded_hook_calls:
  assumes "\<forall>p\<in>set (activePlugins s). m \<notin> set (threaded p)"
  shows "invokes (snd (hook_out c event args' (threaded_step m sub args) s)) =
     inline_calls m args (activePlugins s)"
    and "submits (snd (hook_out c event args' (threaded_step m sub args) s)) = []"
  using assms unthreaded_loop [of "plugins s" m sub args]
  by (simp_all add: invokes_hook_out submits_hook_out inline_loop_calls activePlugins_def)

subsection \<open>Parsing the arguments of an RPC call\<close>

lemma parse_args_Inr:
  "(parse_args c args = Inr vs) = (map (literal_eval c) args = map Inr vs)"
proof (induction args arbitrary: vs)
  case Nil
  show ?case by auto
next
  case (Cons x xs)
  show ?case
  proof (cases vs)
    case Nil
    then show ?thesis
      by (simp split: sum.split)
  next
    case (Cons w ws)
    then show ?thesis
      using Cons.IH [of ws]
      by (cases "literal_eval c x"; cases "parse_args c xs") auto
  qed
qed

lemma parse_args_Inl:
  "map (literal_eval c) pre = map Inr vs \<Longrightarrow> literal_eval c x = Inl e \<Longrightarrow>
     parse_args c (pre @ x # post) = Inl e"
proof (induction pre arbitrary: vs)
  case Nil
  then show ?case by simp
next
  case (Cons y ys)
  then obtain w ws where "vs = w # ws" "literal_eval c y = Inr w" "map (literal_eval c) ys = map Inr ws"
    by (cases vs) auto
  then show ?case
    using Cons.IH [of ws] Cons.prems(2) by simp
qed

subsection \<open>Deactivation\<close>








subsection \<open>The RPC table keeps its entries\<close>




lemma registered_trace [simp]:
  "registered (s\<lparr>trace := t\<rparr>) p func = registered s p func"
  by (simp add: registered_def)







subsection \<open>The index that \<^verbatim>\<open>createIndex\<close> builds\<close>

lemma register_fields [simp]:
  "plugins (register calls s) = plugins s"
  "pluginMap (register calls s) = pluginMap s"
  "next_oid (register calls s) = next_oid s"
  "trace (register calls s) = trace s"
  "events (register calls s) = events s"
  unfolding register_def
  by (induction calls arbitrary: s; simp add: addRPC_def Let_def split: option.split prod.split)+

















section \<open>The claims\<close>

text \<open>
  C1.  Claimed: for an activated plugin that lists \<^verbatim>\<open>downloadFailed\<close> in
  \<^verbatim>\<open>__threaded__\<close>, \<^verbatim>\<open>downloadFailed(pyfile)\<close> submits the plugin's own
  \<^verbatim>\<open>downloadFailed\<close> method to a thread.  The source submits
  \<^verbatim>\<open>plugin.downloadFinished\<close> (line 217), as this run on the addon \<open>A\<close> shows: the
  thread gets the method \<^verbatim>\<open>downloadFinished\<close>, and \<^verbatim>\<open>downloadFailed\<close> of \<open>A\<close> is
  neither submitted nor called.
\<close>

theorem downloadFailed_submits_downloadFinished:
  "isActivated addon_A \<and> ''downloadFailed'' \<in> set (threaded addon_A) \<and>
   trace (snd (downloadFailed demo_core (PObj 7) (manager_of [addon_A]))) =
     [Acquire, Submit 0 ''downloadFinished'' [PObj 7], Release] \<and>
   submits (trace (snd (downloadFailed demo_core (PObj 7) (manager_of [addon_A])))) =
     [(0, ''downloadFinished'', [PObj 7])] \<and>
   invokes (trace (snd (downloadFailed demo_core (PObj 7) (manager_of [addon_A])))) = []"
  by (simp add: downloadFailed_def lock_def try_catch_def and_then_def startThread_def
        dispatchEvent_def emit_def manager_of_def addon_A_def plain_attr_def)




text \<open>
  C3.  Claimed: \<^verbatim>\<open>callRPC\<close> fails with "unknown method" for a pair that was never
  registered in the RPC table, and with "unknown plugin" whenever the plugin is not active.
  \<^verbatim>\<open>callRPC\<close> does not read \<^verbatim>\<open>self.methods\<close>: with an empty table it calls the
  attribute \<^verbatim>\<open>unload\<close> of the addon \<open>A\<close> and returns its result.  And the arguments are
  parsed before the plugin is looked up: for an unknown plugin and an argument that does
  not parse, the failure is the parser's.
\<close>

theorem callRPC_ignores_rpc_table:
  "methods (manager_of [addon_A]) ''A'' = None \<and>
   fst (callRPC demo_core ''A'' ''unload'' [] False (manager_of [addon_A])) = Inr PNone \<and>
   pluginMap (manager_of []) ''Unknown'' = None \<and>
   fst (callRPC demo_core ''Unknown'' ''bar'' [PStr ''x''] True (manager_of [])) =
     Inl (ValueError ''malformed'')"
  by (simp add: callRPC_def manager_of_def addon_A_def plain_attr_def returns_none_def
        demo_core_def)

text \<open>
  C3, as the source has it.  With \<open>parse\<close>, the arguments are parsed from left to
  right and the call fails with the parser's exception at the first argument that does not
  parse, whatever the plugin.  When the arguments parse (or are not to be parsed), the call
  fails with \<^verbatim>\<open>KeyError\<close> when the plugin is no key of \<^verbatim>\<open>pluginMap\<close>, with
  \<^verbatim>\<open>AttributeError\<close> when the instance has no attribute of that name, and otherwise
  calls the attribute with the positional arguments and returns its outcome as it is.
  The outcome does not depend on the RPC table.
\<close>

theorem callRPC_outcomes:
  "(map (literal_eval c) pre = map Inr vs \<and> literal_eval c x = Inl e \<longrightarrow>
      callRPC c plugin func (pre @ x # post) True s = (Inl e, s)) \<and>
   ((if parse then map (literal_eval c) args = map Inr args' else args' = args) \<longrightarrow>
      (pluginMap s plugin = None \<longrightarrow>
         callRPC c plugin func args parse s = (Inl (KeyError plugin), s)) \<and>
      (pluginMap s plugin = Some inst \<and> attr inst func = None \<longrightarrow>
         callRPC c plugin func args parse s = (Inl (AttributeError func), s)) \<and>
      (pluginMap s plugin = Some inst \<and> attr inst func = Some f \<longrightarrow>
         callRPC c plugin func args parse s =
           (f args', s\<lparr>trace := trace s @ [Invoke (oid inst) func args']\<rparr>))) \<and>
   fst (callRPC c plugin func args parse (s\<lparr>methods := table\<rparr>)) =
     fst (callRPC c plugin func args parse s)"
proof (intro conjI impI)
  assume "map (literal_eval c) pre = map Inr vs \<and> literal_eval c x = Inl e"
  then show "callRPC c plugin func (pre @ x # post) True s = (Inl e, s)"
    by (simp add: callRPC_def parse_args_Inl)
next
  assume a: "if parse then map (literal_eval c) args = map Inr args' else args' = args"
  then have p: "(if parse then parse_args c args else Inr args) = Inr args'"
    by (simp add: parse_args_Inr split: if_splits)
  show "callRPC c plugin func args parse s = (Inl (KeyError plugin), s)"
    if "pluginMap s plugin = None"
    using that p by (simp add: callRPC_def)
  show "callRPC c plugin func args parse s = (Inl (AttributeError func), s)"
    if "pluginMap s plugin = Some inst \<and> attr inst func = None"
    using that p by (simp add: callRPC_def)
  show "callRPC c plugin func args parse s =
           (f args', s\<lparr>trace := trace s @ [Invoke (oid inst) func args']\<rparr>)"
    if "pluginMap s plugin = Some inst \<and> attr inst func = Some f"
    using that p by (simp add: callRPC_def emit_def)
next
  show "fst (callRPC c plugin func args parse (s\<lparr>methods := table\<rparr>)) =
     fst (callRPC c plugin func args parse s)"
    by (simp add: callRPC_def split: sum.split option.split)
qed

text \<open>The four outcomes, on the manager that holds \<open>A\<close>.\<close>

theorem callRPC_outcomes_witness:
  "map (literal_eval demo_core) [PStr ''1''] = map Inr [PInt 1] \<and>
   literal_eval demo_core (PStr ''x'') = Inl (ValueError ''malformed'') \<and>
   callRPC demo_core ''A'' ''unload'' ([PStr ''1''] @ PStr ''x'' # []) True (manager_of [addon_A]) =
     (Inl (ValueError ''malformed''), manager_of [addon_A]) \<and>
   pluginMap (manager_of [addon_A]) ''Unknown'' = None \<and>
   callRPC demo_core ''Unknown'' ''bar'' [] False (manager_of [addon_A]) =
     (Inl (KeyError ''Unknown''), manager_of [addon_A]) \<and>
   pluginMap (manager_of [addon_A]) ''A'' = Some addon_A \<and>
   attr addon_A ''bar'' = None \<and>
   callRPC demo_core ''A'' ''bar'' [] False (manager_of [addon_A]) =
     (Inl (AttributeError ''bar''), manager_of [addon_A]) \<and>
   attr addon_A ''unload'' = Some returns_none \<and>
   callRPC demo_core ''A'' ''unload'' [PStr ''1''] True (manager_of [addon_A]) =
     (Inr PNone, (manager_of [addon_A])\<lparr>trace := [Invoke 0 ''unload'' [PInt 1]]\<rparr>)"
proof -
  have l: "map (literal_eval demo_core) [PStr ''1''] = map Inr [PInt 1]"
    "literal_eval demo_core (PStr ''x'') = Inl (ValueError ''malformed'')"
    by (simp_all add: demo_core_def)
  have m: "pluginMap (manager_of [addon_A]) ''Unknown'' = None"
    "pluginMap (manager_of [addon_A]) ''A'' = Some addon_A"
    by (simp_all add: manager_of_def addon_A_def)
  have a: "attr addon_A ''bar'' = None" "attr addon_A ''unload'' = Some returns_none"
    by (simp_all add: addon_A_def plain_attr_def)
  have o: "oid addon_A = 0" "trace (manager_of [addon_A]) = []"
    by (simp_all add: addon_A_def manager_of_def)
  have 1: "callRPC demo_core ''A'' ''unload'' ([PStr ''1''] @ PStr ''x'' # []) True
             (manager_of [addon_A]) = (Inl (ValueError ''malformed''), manager_of [addon_A])"
    using callRPC_outcomes [of demo_core "[PStr ''1'']" "[PInt 1]" "PStr ''x''"
            "ValueError ''malformed''" "''A''" "''unload''" "[]" "manager_of [addon_A]"] l
    by blast
  have 2: "callRPC demo_core ''Unknown'' ''bar'' [] False (manager_of [addon_A]) =
     (Inl (KeyError ''Unknown''), manager_of [addon_A])"
    using callRPC_outcomes [of demo_core _ _ _ _ "''Unknown''" "''bar''" _ "manager_of [addon_A]"
            False "[]" "[]"] m
    by simp
  have 3: "callRPC demo_core ''A'' ''bar'' [] False (manager_of [addon_A]) =
     (Inl (AttributeError ''bar''), manager_of [addon_A])"
    using callRPC_outcomes [of demo_core _ _ _ _ "''A''" "''bar''" _ "manager_of [addon_A]"
            False "[]" "[]" addon_A] m a
    by simp
  have 4: "callRPC demo_core ''A'' ''unload'' [PStr ''1''] True (manager_of [addon_A]) =
     (Inr PNone, (manager_of [addon_A])\<lparr>trace := [Invoke 0 ''unload'' [PInt 1]]\<rparr>)"
    using callRPC_outcomes [of demo_core _ _ _ _ "''A''" "''unload''" _ "manager_of [addon_A]"
            True "[PStr ''1'']" "[PInt 1]" addon_A returns_none] m a l o
    by (simp add: returns_none_def)
  show ?thesis
    by (intro conjI l m a 1 2 3 4)
qed




text \<open>
  C5.  Claimed: in \<^verbatim>\<open>downloadPreparing\<close>, \<^verbatim>\<open>downloadFinished\<close>, \<^verbatim>\<open>packageFinished\<close>
  and \<^verbatim>\<open>afterReconnecting\<close> an exception of one plugin is caught and logged, and the
  loop goes on.  These four methods have no \<^verbatim>\<open>try\<close>: with \<open>X\<close> before \<open>B\<close> in the
  index, \<^verbatim>\<open>downloadPreparing\<close> returns the exception of \<open>X\<close> to its caller, \<open>B\<close>
  (identity 1) is not called and nothing is logged.
\<close>

theorem inline_exception_not_isolated:
  "downloadPreparing demo_core (PObj 7) (manager_of [addon_X, addon_B]) =
     (Some (Exception ''boom''),
      (manager_of [addon_X, addon_B])
        \<lparr>trace := [Acquire, Invoke 3 ''downloadPreparing'' [PObj 7], Release]\<rparr>)"
  by (simp add: downloadPreparing_def lock_def and_then_def call_method_def emit_def
        manager_of_def addon_X_def addon_B_def failing_attr_def raises_def)

text \<open>
  C5, as the source has it.  Let an activated plugin raise \<open>e\<close> in its inline call, and
  let the rounds of the plugins before it in the index not raise.  Then each of the four
  hooks returns \<open>e\<close> to its caller; the trace holds the lock being taken, the calls
  and submissions for the activated plugins before, the call that raised, and the lock
  being released: no plugin after it is called, the event is not dispatched and nothing
  is logged.
\<close>

theorem inline_exception_propagates:
  assumes "plugins s = before @ plugin # rest" and "isActivated plugin"
  shows
    "(attr plugin ''downloadPreparing'' = Some f \<and> f [x] = Inl e \<and>
      (\<forall>q\<in>set before. isActivated q \<longrightarrow> returns q ''downloadPreparing'' [x]) \<longrightarrow>
        downloadPreparing c x s =
          (Some e, s\<lparr>trace := trace s @ Acquire # inline_trace ''downloadPreparing'' [x] before @
                      [Invoke (oid plugin) ''downloadPreparing'' [x], Release]\<rparr>)) \<and>
     (attr plugin ''downloadFinished'' = Some f \<and> f [x] = Inl e \<and>
      ''downloadFinished'' \<notin> set (threaded plugin) \<and>
      (\<forall>q\<in>set before. isActivated q \<longrightarrow> passes q ''downloadFinished'' [x]) \<longrightarrow>
        downloadFinished c x s =
          (Some e, s\<lparr>trace := trace s @ Acquire # threaded_trace ''downloadFinished'' [x] before @
                      [Invoke (oid plugin) ''downloadFinished'' [x], Release]\<rparr>)) \<and>
     (attr plugin ''packageFinished'' = Some f \<and> f [x] = Inl e \<and>
      ''packageFinished'' \<notin> set (threaded plugin) \<and>
      (\<forall>q\<in>set before. isActivated q \<longrightarrow> passes q ''packageFinished'' [x]) \<longrightarrow>
        packageFinished c x s =
          (Some e, s\<lparr>trace := trace s @ Acquire # threaded_trace ''packageFinished'' [x] before @
                      [Invoke (oid plugin) ''packageFinished'' [x], Release]\<rparr>)) \<and>
     (attr plugin ''afterReconnecting'' = Some f \<and> f [x] = Inl e \<and>
      (\<forall>q\<in>set before. isActivated q \<longrightarrow> returns q ''afterReconnecting'' [x]) \<longrightarrow>
        afterReconnecting c x s =
          (Some e, s\<lparr>trace := trace s @ Acquire # inline_trace ''afterReconnecting'' [x] before @
                      [Invoke (oid plugin) ''afterReconnecting'' [x], Release]\<rparr>))"
proof (intro conjI impI; elim conjE)
  assume "attr plugin ''downloadPreparing'' = Some f" "f [x] = Inl e"
    "\<forall>q\<in>set before. isActivated q \<longrightarrow> returns q ''downloadPreparing'' [x]"
  then have "hook_out c ''downloadPreparing'' [x] (inline_step ''downloadPreparing'' [x]) s =
      (Some e, inline_trace ''downloadPreparing'' [x] before @
               [Invoke (oid plugin) ''downloadPreparing'' [x]])"
    using assms by (intro hook_out_raise) (simp add: inline_loop_raise)
  then show "downloadPreparing c x s =
          (Some e, s\<lparr>trace := trace s @ Acquire # inline_trace ''downloadPreparing'' [x] before @
                      [Invoke (oid plugin) ''downloadPreparing'' [x], Release]\<rparr>)"
    by (simp add: downloadPreparing_trace)
next
  assume "attr plugin ''afterReconnecting'' = Some f" "f [x] = Inl e"
    "\<forall>q\<in>set before. isActivated q \<longrightarrow> returns q ''afterReconnecting'' [x]"
  then have "hook_out c ''afterReconnecting'' [x] (inline_step ''afterReconnecting'' [x]) s =
      (Some e, inline_trace ''afterReconnecting'' [x] before @
               [Invoke (oid plugin) ''afterReconnecting'' [x]])"
    using assms by (intro hook_out_raise) (simp add: inline_loop_raise)
  then show "afterReconnecting c x s =
          (Some e, s\<lparr>trace := trace s @ Acquire # inline_trace ''afterReconnecting'' [x] before @
                      [Invoke (oid plugin) ''afterReconnecting'' [x], Release]\<rparr>)"
    by (simp add: afterReconnecting_trace)
next
  assume "attr plugin ''downloadFinished'' = Some f" "f [x] = Inl e"
    "''downloadFinished'' \<notin> set (threaded plugin)"
    "\<forall>q\<in>set before. isActivated q \<longrightarrow> passes q ''downloadFinished'' [x]"
  then have "hook_out c ''downloadFinished'' [x]
        (threaded_step ''downloadFinished'' ''downloadFinished'' [x]) s =
      (Some e, threaded_trace ''downloadFinished'' [x] before @
               [Invoke (oid plugin) ''downloadFinished'' [x]])"
    using assms by (intro hook_out_raise) (simp add: threaded_loop_raise)
  then show "downloadFinished c x s =
          (Some e, s\<lparr>trace := trace s @ Acquire # threaded_trace ''downloadFinished'' [x] before @
                      [Invoke (oid plugin) ''downloadFinished'' [x], Release]\<rparr>)"
    by (simp add: downloadFinished_trace)
next
  assume "attr plugin ''packageFinished'' = Some f" "f [x] = Inl e"
    "''packageFinished'' \<notin> set (threaded plugin)"
    "\<forall>q\<in>set before. isActivated q \<longrightarrow> passes q ''packageFinished'' [x]"
  then have "hook_out c ''packageFinished'' [x]
        (threaded_step ''packageFinished'' ''packageFinished'' [x]) s =
      (Some e, threaded_trace ''packageFinished'' [x] before @
               [Invoke (oid plugin) ''packageFinished'' [x]])"
    using assms by (intro hook_out_raise) (simp add: threaded_loop_raise)
  then show "packageFinished c x s =
          (Some e, s\<lparr>trace := trace s @ Acquire # threaded_trace ''packageFinished'' [x] before @
                      [Invoke (oid plugin) ''packageFinished'' [x], Release]\<rparr>)"
    by (simp add: packageFinished_trace)
qed

text \<open>On the manager \<open>mixed\<close>: \<open>B\<close> is called, \<open>X\<close>
  raises, \<open>A\<close> is not reached.\<close>

theorem inline_exception_propagates_witness:
  "plugins mixed = [addon_B] @ addon_X # [addon_A] \<and> isActivated addon_X \<and>
   attr addon_X ''downloadPreparing'' = Some raises \<and>
   attr addon_X ''downloadFinished'' = Some raises \<and>
   attr addon_X ''packageFinished'' = Some raises \<and>
   attr addon_X ''afterReconnecting'' = Some raises \<and>
   raises [PObj 7] = Inl (Exception ''boom'') \<and>
   ''downloadFinished'' \<notin> set (threaded addon_X) \<and>
   ''packageFinished'' \<notin> set (threaded addon_X) \<and>
   returns addon_B ''downloadPreparing'' [PObj 7] \<and>
   passes addon_B ''downloadFinished'' [PObj 7] \<and>
   passes addon_B ''packageFinished'' [PObj 7] \<and>
   returns addon_B ''afterReconnecting'' [PObj 7] \<and>
   downloadPreparing demo_core (PObj 7) mixed =
     (Some (Exception ''boom''),
      mixed\<lparr>trace := trace mixed @ [Acquire, Invoke 1 ''downloadPreparing'' [PObj 7],
                                  Invoke 3 ''downloadPreparing'' [PObj 7], Release]\<rparr>) \<and>
   downloadFinished demo_core (PObj 7) mixed =
     (Some (Exception ''boom''),
      mixed\<lparr>trace := trace mixed @ [Acquire, Invoke 1 ''downloadFinished'' [PObj 7],
                                  Invoke 3 ''downloadFinished'' [PObj 7], Release]\<rparr>) \<and>
   packageFinished demo_core (PObj 7) mixed =
     (Some (Exception ''boom''),
      mixed\<lparr>trace := trace mixed @ [Acquire, Invoke 1 ''packageFinished'' [PObj 7],
                                  Invoke 3 ''packageFinished'' [PObj 7], Release]\<rparr>) \<and>
   afterReconnecting demo_core (PObj 7) mixed =
     (Some (Exception ''boom''),
      mixed\<lparr>trace := trace mixed @ [Acquire, Invoke 1 ''afterReconnecting'' [PObj 7],
                                  Invoke 3 ''afterReconnecting'' [PObj 7], Release]\<rparr>)"
proof -
  have p: "plugins mixed = [addon_B] @ addon_X # [addon_A]"
    by (simp add: mixed_def manager_of_def)
  have a: "isActivated addon_X"
    by (simp add: addon_X_def)
  have f: "attr addon_X ''downloadPreparing'' = Some raises"
    "attr addon_X ''downloadFinished'' = Some raises"
    "attr addon_X ''packageFinished'' = Some raises"
    "attr addon_X ''afterReconnecting'' = Some raises"
    by (simp_all add: addon_X_def failing_attr_def)
  have r: "raises [PObj 7] = Inl (Exception ''boom'')"
    by (simp add: raises_def)
  have n: "''downloadFinished'' \<notin> set (threaded addon_X)"
    "''packageFinished'' \<notin> set (threaded addon_X)"
    by (simp_all add: addon_X_def)
  have b: "returns addon_B ''downloadPreparing'' [PObj 7]"
    "passes addon_B ''downloadFinished'' [PObj 7]"
    "passes addon_B ''packageFinished'' [PObj 7]"
    "returns addon_B ''afterReconnecting'' [PObj 7]"
    by (simp_all add: passes_def returns_def addon_B_def plain_attr_def returns_none_def)
  have ab: "isActivated addon_B" "oid addon_B = 1" "oid addon_X = 3" "threaded addon_B = []"
    by (simp_all add: addon_B_def addon_X_def)
  note t = inline_exception_propagates
             [OF p a, of raises "PObj 7" "Exception ''boom''" demo_core]
  have 1: "downloadPreparing demo_core (PObj 7) mixed =
     (Some (Exception ''boom''),
      mixed\<lparr>trace := trace mixed @ [Acquire, Invoke 1 ''downloadPreparing'' [PObj 7],
                                  Invoke 3 ''downloadPreparing'' [PObj 7], Release]\<rparr>)"
    using t f r b ab by (simp add: inline_trace_def)
  have 2: "downloadFinished demo_core (PObj 7) mixed =
     (Some (Exception ''boom''),
      mixed\<lparr>trace := trace mixed @ [Acquire, Invoke 1 ''downloadFinished'' [PObj 7],
                                  Invoke 3 ''downloadFinished'' [PObj 7], Release]\<rparr>)"
    using t f r b n ab by (simp add: threaded_trace_def)
  have 3: "packageFinished demo_core (PObj 7) mixed =
     (Some (Exception ''boom''),
      mixed\<lparr>trace := trace mixed @ [Acquire, Invoke 1 ''packageFinished'' [PObj 7],
                                  Invoke 3 ''packageFinished'' [PObj 7], Release]\<rparr>)"
    using t f r b n ab by (simp add: threaded_trace_def)
  have 4: "afterReconnecting demo_core (PObj 7) mixed =
     (Some (Exception ''boom''),
      mixed\<lparr>trace := trace mixed @ [Acquire, Invoke 1 ''afterReconnecting'' [PObj 7],
                                  Invoke 3 ''afterReconnecting'' [PObj 7], Release]\<rparr>)"
    using t f r b ab by (simp add: inline_trace_def)
  show ?thesis
    by (intro conjI p a f r n b 1 2 3 4)
qed

text \<open>
  C6.  \<^verbatim>\<open>dispatchEvent(event, args)\<close> does nothing when no listener is registered for
  the event.  Otherwise it appends to the trace, for each registered listener in the order
  of registration, the call of that listener with \<open>args\<close>, followed by a warning that
  names the event, the listener, the arguments and the exception when the call raised.
  So the calls recorded are exactly the registered listeners, in registration order,
  whatever any of them raises, and every exception is logged.
\<close>

theorem dispatchEvent_delivers:
  "(listeners_of s event = [] \<longrightarrow> dispatchEvent c event args s = s) \<and>
   dispatchEvent c event args s =
     s\<lparr>trace := trace s @ concat (map (delivery c event args) (listeners_of s event))\<rparr> \<and>
   listener_calls (effects_since s (dispatchEvent c event args s)) =
     map (\<lambda>f. (f, args)) (listeners_of s event) \<and>
   (\<forall>f e. f \<in> set (listeners_of s event) \<and> listener_call c f args = Some e \<longrightarrow>
      Log LWarning (ErrorCallingEventHandler event f args e)
        \<in> set (effects_since s (dispatchEvent c event args s)))"
  using warning_in_delivery [of _ "listeners_of s event" c args _ event]
  by (simp add: dispatchEvent_trace listener_calls_delivery del: set_concat)

text \<open>On the manager \<open>bus\<close> the listener 1 is registered before the listener 2 and raises:
  both are called, 1 first, and the warning is logged; an event without listeners leaves
  the manager as it is.\<close>

theorem dispatchEvent_delivers_witness:
  "listeners_of bus ''E'' = [Callable 1, Callable 2] \<and>
   listener_call demo_core (Callable 1) [PObj 7] = Some (Exception ''boom'') \<and>
   listener_calls (effects_since bus (dispatchEvent demo_core ''E'' [PObj 7] bus)) =
     [(Callable 1, [PObj 7]), (Callable 2, [PObj 7])] \<and>
   Log LWarning (ErrorCallingEventHandler ''E'' (Callable 1) [PObj 7] (Exception ''boom''))
     \<in> set (effects_since bus (dispatchEvent demo_core ''E'' [PObj 7] bus)) \<and>
   listeners_of bus ''F'' = [] \<and>
   dispatchEvent demo_core ''F'' [PObj 7] bus = bus"
proof -
  have l: "listeners_of bus ''E'' = [Callable 1, Callable 2]"
    by (simp add: bus_def listeners_of_addEvent) (simp add: listeners_of_def manager_of_def)
  have r: "listener_call demo_core (Callable 1) [PObj 7] = Some (Exception ''boom'')"
    by (simp add: demo_core_def)
  have n: "listeners_of bus ''F'' = []"
    by (simp add: bus_def listeners_of_addEvent) (simp add: listeners_of_def manager_of_def)
  note t = dispatchEvent_delivers [of bus "''E''" demo_core "[PObj 7]"]
  from t have "listener_calls (effects_since bus (dispatchEvent demo_core ''E'' [PObj 7] bus)) =
      map (\<lambda>f. (f, [PObj 7])) (listeners_of bus ''E'')"
    by blast
  then have calls: "listener_calls (effects_since bus (dispatchEvent demo_core ''E'' [PObj 7] bus)) =
      [(Callable 1, [PObj 7]), (Callable 2, [PObj 7])]"
    by (simp add: l)
  from t have "Callable 1 \<in> set (listeners_of bus ''E'') \<and>
      listener_call demo_core (Callable 1) [PObj 7] = Some (Exception ''boom'') \<longrightarrow>
      Log LWarning (ErrorCallingEventHandler ''E'' (Callable 1) [PObj 7] (Exception ''boom''))
        \<in> set (effects_since bus (dispatchEvent demo_core ''E'' [PObj 7] bus))"
    by blast
  then have warned:
    "Log LWarning (ErrorCallingEventHandler ''E'' (Callable 1) [PObj 7] (Exception ''boom''))
        \<in> set (effects_since bus (dispatchEvent demo_core ''E'' [PObj 7] bus))"
    using l r by simp
  have "listeners_of bus ''F'' = [] \<longrightarrow> dispatchEvent demo_core ''F'' [PObj 7] bus = bus"
    using dispatchEvent_delivers [of bus "''F''" demo_core "[PObj 7]"] by blast
  then have noop: "dispatchEvent demo_core ''F'' [PObj 7] bus = bus"
    using n by simp
  show ?thesis
    using l r calls warned n noop by blast
qed



text \<open>
  C8.  Claimed: \<^verbatim>\<open>beforeReconnecting(ip)\<close> invokes the method of every instance in the
  index.  The loop has no \<^verbatim>\<open>try\<close>: with \<open>X\<close> (identity 3), whose hooks raise, before
  \<open>B\<close> (identity 1) in the index, \<^verbatim>\<open>beforeReconnecting\<close> returns the exception of
  \<open>X\<close> to its caller and the method of \<open>B\<close> is not invoked.
\<close>

theorem beforeReconnecting_stops_at_exception:
  "plugins (manager_of [addon_X, addon_B]) = [addon_X, addon_B] \<and>
   oid addon_X = 3 \<and> oid addon_B = 1 \<and>
   attr addon_B ''beforeReconnecting'' = Some returns_none \<and>
   fst (beforeReconnecting demo_core (PStr ''10.0.0.1'') (manager_of [addon_X, addon_B])) =
     Some (Exception ''boom'') \<and>
   invokes (trace (snd (beforeReconnecting demo_core (PStr ''10.0.0.1'')
                          (manager_of [addon_X, addon_B])))) =
     [(3, ''beforeReconnecting'', [PStr ''10.0.0.1''])]"
  by (simp add: beforeReconnecting_def lock_def and_then_def call_method_def emit_def
        manager_of_def addon_X_def addon_B_def failing_attr_def plain_attr_def raises_def)

text \<open>
  C8, as the source has it.  \<^verbatim>\<open>beforeReconnecting(ip)\<close> goes through the instances of
  the index in order, whatever \<^verbatim>\<open>isActivated()\<close> says, and calls the method
  \<^verbatim>\<open>beforeReconnecting\<close> of each with the argument \<open>ip\<close>, up to and including the first
  whose call raises or which lacks the method; it submits nothing to a thread.  The other
  hooks go through the activated instances in the same way: \<^verbatim>\<open>afterReconnecting\<close>,
  \<^verbatim>\<open>coreReady\<close>, \<^verbatim>\<open>coreExiting\<close> and \<^verbatim>\<open>downloadPreparing\<close> call the method of
  their own name inline; \<^verbatim>\<open>downloadFinished\<close> and \<^verbatim>\<open>packageFinished\<close> submit the
  method of their own name to a thread for an instance that lists it in
  \<^verbatim>\<open>__threaded__\<close> and call it inline otherwise; \<^verbatim>\<open>downloadFailed\<close> calls
  \<^verbatim>\<open>downloadFailed\<close> inline when no activated instance lists it in
  \<^verbatim>\<open>__threaded__\<close>, and in every case addresses activated instances only.  So when
  every call returns, \<^verbatim>\<open>beforeReconnecting\<close> calls every instance of the index and
  \<^verbatim>\<open>afterReconnecting\<close> every activated one.
\<close>

theorem hooks_reach_up_to_first_exception:
  "invokes (effects_since s (snd (beforeReconnecting c x s))) =
     inline_calls ''beforeReconnecting'' [x] (plugins s) \<and>
   submits (effects_since s (snd (beforeReconnecting c x s))) = [] \<and>
   invokes (effects_since s (snd (afterReconnecting c x s))) =
     inline_calls ''afterReconnecting'' [x] (activePlugins s) \<and>
   submits (effects_since s (snd (afterReconnecting c x s))) = [] \<and>
   invokes (effects_since s (snd (coreReady c s))) =
     inline_calls ''coreReady'' [] (activePlugins s) \<and>
   submits (effects_since s (snd (coreReady c s))) = [] \<and>
   invokes (effects_since s (snd (coreExiting c s))) =
     inline_calls ''coreExiting'' [] (activePlugins s) \<and>
   submits (effects_since s (snd (coreExiting c s))) = [] \<and>
   invokes (effects_since s (snd (downloadPreparing c x s))) =
     inline_calls ''downloadPreparing'' [x] (activePlugins s) \<and>
   submits (effects_since s (snd (downloadPreparing c x s))) = [] \<and>
   invokes (effects_since s (snd (downloadFinished c x s))) =
     thread_calls ''downloadFinished'' [x] (activePlugins s) \<and>
   submits (effects_since s (snd (downloadFinished c x s))) =
     thread_submits ''downloadFinished'' [x] (activePlugins s) \<and>
   invokes (effects_since s (snd (packageFinished c x s))) =
     thread_calls ''packageFinished'' [x] (activePlugins s) \<and>
   submits (effects_since s (snd (packageFinished c x s))) =
     thread_submits ''packageFinished'' [x] (activePlugins s) \<and>
   ((\<forall>p\<in>set (activePlugins s). ''downloadFailed'' \<notin> set (threaded p)) \<longrightarrow>
      invokes (effects_since s (snd (downloadFailed c x s))) =
        inline_calls ''downloadFailed'' [x] (activePlugins s) \<and>
      submits (effects_since s (snd (downloadFailed c x s))) = []) \<and>
   set (addressed (effects_since s (snd (downloadFailed c x s)))) \<subseteq> oid ` set (activePlugins s) \<and>
   ((\<forall>p\<in>set (plugins s). returns p ''beforeReconnecting'' [x]) \<longrightarrow>
      invokes (effects_since s (snd (beforeReconnecting c x s))) =
        map (\<lambda>p. (oid p, ''beforeReconnecting'', [x])) (plugins s)) \<and>
   ((\<forall>p\<in>set (activePlugins s). returns p ''afterReconnecting'' [x]) \<longrightarrow>
      invokes (effects_since s (snd (afterReconnecting c x s))) =
        map (\<lambda>p. (oid p, ''afterReconnecting'', [x])) (activePlugins s))"
proof (intro conjI impI)
  show b: "invokes (effects_since s (snd (beforeReconnecting c x s))) =
     inline_calls ''beforeReconnecting'' [x] (plugins s)"
    by (simp add: beforeReconnecting_trace every_hook_calls)
  show "submits (effects_since s (snd (beforeReconnecting c x s))) = []"
    by (simp add: beforeReconnecting_trace every_hook_calls)
  show a: "invokes (effects_since s (snd (afterReconnecting c x s))) =
     inline_calls ''afterReconnecting'' [x] (activePlugins s)"
    by (simp add: afterReconnecting_trace inline_hook_calls)
  show "submits (effects_since s (snd (afterReconnecting c x s))) = []"
    by (simp add: afterReconnecting_trace inline_hook_calls)
  show "invokes (effects_since s (snd (coreReady c s))) =
     inline_calls ''coreReady'' [] (activePlugins s)"
    by (simp add: coreReady_trace inline_hook_calls)
  show "submits (effects_since s (snd (coreReady c s))) = []"
    by (simp add: coreReady_trace inline_hook_calls)
  show "invokes (effects_since s (snd (coreExiting c s))) =
     inline_calls ''coreExiting'' [] (activePlugins s)"
    by (simp add: coreExiting_trace inline_hook_calls)
  show "submits (effects_since s (snd (coreExiting c s))) = []"
    by (simp add: coreExiting_trace inline_hook_calls)
  show "invokes (effects_since s (snd (downloadPreparing c x s))) =
     inline_calls ''downloadPreparing'' [x] (activePlugins s)"
    by (simp add: downloadPreparing_trace inline_hook_calls)
  show "submits (effects_since s (snd (downloadPreparing c x s))) = []"
    by (simp add: downloadPreparing_trace inline_hook_calls)
  show "invokes (effects_since s (snd (downloadFinished c x s))) =
     thread_calls ''downloadFinished'' [x] (activePlugins s)"
    by (simp add: downloadFinished_trace threaded_hook_calls)
  show "submits (effects_since s (snd (downloadFinished c x s))) =
     thread_submits ''downloadFinished'' [x] (activePlugins s)"
    by (simp add: downloadFinished_trace threaded_hook_calls)
  show "invokes (effects_since s (snd (packageFinished c x s))) =
     thread_calls ''packageFinished'' [x] (activePlugins s)"
    by (simp add: packageFinished_trace threaded_hook_calls)
  show "submits (effects_since s (snd (packageFinished c x s))) =
     thread_submits ''packageFinished'' [x] (activePlugins s)"
    by (simp add: packageFinished_trace threaded_hook_calls)
  show "set (addressed (effects_since s (snd (downloadFailed c x s)))) \<subseteq> oid ` set (activePlugins s)"
    by (simp add: downloadFailed_trace addressed_threaded_hook)
  show "invokes (effects_since s (snd (beforeReconnecting c x s))) =
        map (\<lambda>p. (oid p, ''beforeReconnecting'', [x])) (plugins s)"
    if "\<forall>p\<in>set (plugins s). returns p ''beforeReconnecting'' [x]"
    unfolding b using that by (rule inline_calls_all)
  show "invokes (effects_since s (snd (afterReconnecting c x s))) =
        map (\<lambda>p. (oid p, ''afterReconnecting'', [x])) (activePlugins s)"
    if "\<forall>p\<in>set (activePlugins s). returns p ''afterReconnecting'' [x]"
    unfolding a using that by (rule inline_calls_all)
next
  assume h: "\<forall>p\<in>set (activePlugins s). ''downloadFailed'' \<notin> set (threaded p)"
  show "invokes (effects_since s (snd (downloadFailed c x s))) =
        inline_calls ''downloadFailed'' [x] (activePlugins s)"
    by (simp add: downloadFailed_trace unthreaded_hook_calls [OF h])
  show "submits (effects_since s (snd (downloadFailed c x s))) = []"
    by (simp add: downloadFailed_trace unthreaded_hook_calls [OF h])
qed

text \<open>With \<open>D\<close> (identity 2, not activated) and \<open>B\<close> (identity 1) in the index, whose
  calls return: \<^verbatim>\<open>beforeReconnecting\<close> calls both, \<^verbatim>\<open>afterReconnecting\<close> and
  \<^verbatim>\<open>downloadFailed\<close> call \<open>B\<close> only.  With \<open>A\<close> (identity 0), \<open>X\<close> (identity 3)
  and \<open>B\<close> in the index, \<^verbatim>\<open>downloadFinished\<close> submits the method of \<open>A\<close> to a
  thread and calls that of \<open>X\<close>, which raises, and does not reach \<open>B\<close>.\<close>

theorem hooks_reach_up_to_first_exception_witness:
  "plugins index_DB = [addon_D, addon_B] \<and> \<not> isActivated addon_D \<and>
   activePlugins index_DB = [addon_B] \<and>
   returns addon_D ''beforeReconnecting'' [PStr ''10.0.0.1''] \<and>
   returns addon_B ''beforeReconnecting'' [PStr ''10.0.0.1''] \<and>
   returns addon_B ''afterReconnecting'' [PStr ''10.0.0.1''] \<and>
   ''downloadFailed'' \<notin> set (threaded addon_B) \<and>
   invokes (effects_since index_DB (snd (beforeReconnecting demo_core (PStr ''10.0.0.1'') index_DB))) =
     [(2, ''beforeReconnecting'', [PStr ''10.0.0.1'']), (1, ''beforeReconnecting'', [PStr ''10.0.0.1''])] \<and>
   invokes (effects_since index_DB (snd (afterReconnecting demo_core (PStr ''10.0.0.1'') index_DB))) =
     [(1, ''afterReconnecting'', [PStr ''10.0.0.1''])] \<and>
   invokes (effects_since index_DB (snd (downloadFailed demo_core (PObj 7) index_DB))) =
     [(1, ''downloadFailed'', [PObj 7])] \<and>
   submits (effects_since index_DB (snd (downloadFailed demo_core (PObj 7) index_DB))) = [] \<and>
   activePlugins (manager_of [addon_A, addon_X, addon_B]) = [addon_A, addon_X, addon_B] \<and>
   submits (effects_since (manager_of [addon_A, addon_X, addon_B])
      (snd (downloadFinished demo_core (PObj 7) (manager_of [addon_A, addon_X, addon_B])))) =
     [(0, ''downloadFinished'', [PObj 7])] \<and>
   invokes (effects_since (manager_of [addon_A, addon_X, addon_B])
      (snd (downloadFinished demo_core (PObj 7) (manager_of [addon_A, addon_X, addon_B])))) =
     [(3, ''downloadFinished'', [PObj 7])]"
proof -
  have p: "plugins index_DB = [addon_D, addon_B]"
    by (simp add: index_DB_def manager_of_def)
  have d: "\<not> isActivated addon_D"
    by (simp add: addon_D_def)
  have a: "activePlugins index_DB = [addon_B]"
    by (simp add: activePlugins_def p addon_D_def addon_B_def)
  have r: "returns addon_D ''beforeReconnecting'' [PStr ''10.0.0.1'']"
    "returns addon_B ''beforeReconnecting'' [PStr ''10.0.0.1'']"
    "returns addon_B ''afterReconnecting'' [PStr ''10.0.0.1'']"
    by (simp_all add: returns_def addon_D_def addon_B_def plain_attr_def returns_none_def)
  have n: "''downloadFailed'' \<notin> set (threaded addon_B)"
    by (simp add: addon_B_def)
  have o: "oid addon_D = 2" "oid addon_B = 1"
    by (simp_all add: addon_D_def addon_B_def)
  have f: "inline_calls ''downloadFailed'' [PObj 7] [addon_B] = [(1, ''downloadFailed'', [PObj 7])]"
    by (simp add: inline_calls_def returns_def addon_B_def plain_attr_def returns_none_def)
  have am: "activePlugins (manager_of [addon_A, addon_X, addon_B]) = [addon_A, addon_X, addon_B]"
    by (simp add: activePlugins_def manager_of_def addon_B_def addon_X_def addon_A_def)
  have tc: "thread_calls ''downloadFinished'' [PObj 7] [addon_A, addon_X, addon_B] =
      [(3, ''downloadFinished'', [PObj 7])]"
    by (simp add: thread_calls_def passes_def returns_def addon_B_def addon_X_def addon_A_def
          plain_attr_def failing_attr_def returns_none_def raises_def)
  have ts: "thread_submits ''downloadFinished'' [PObj 7] [addon_A, addon_X, addon_B] =
      [(0, ''downloadFinished'', [PObj 7])]"
    by (simp add: thread_submits_def passes_def returns_def addon_B_def addon_X_def addon_A_def
          plain_attr_def failing_attr_def returns_none_def raises_def)
  note t = hooks_reach_up_to_first_exception
    [where s = index_DB and x = "PStr ''10.0.0.1''" and c = demo_core]
  note t' = hooks_reach_up_to_first_exception
    [where s = index_DB and x = "PObj 7" and c = demo_core]
  note u = hooks_reach_up_to_first_exception
    [where s = "manager_of [addon_A, addon_X, addon_B]" and x = "PObj 7" and c = demo_core]
  have r1: "\<forall>p\<in>set (plugins index_DB). returns p ''beforeReconnecting'' [PStr ''10.0.0.1'']"
    using r by (simp add: p)
  have r2: "\<forall>p\<in>set (activePlugins index_DB). returns p ''afterReconnecting'' [PStr ''10.0.0.1'']"
    using r by (simp add: a)
  have r3: "\<forall>p\<in>set (activePlugins index_DB). ''downloadFailed'' \<notin> set (threaded p)"
    using n by (simp add: a)
  from t r1 have "invokes (effects_since index_DB
        (snd (beforeReconnecting demo_core (PStr ''10.0.0.1'') index_DB))) =
      map (\<lambda>p. (oid p, ''beforeReconnecting'', [PStr ''10.0.0.1''])) (plugins index_DB)"
    by blast
  then have 1: "invokes (effects_since index_DB
        (snd (beforeReconnecting demo_core (PStr ''10.0.0.1'') index_DB))) =
     [(2, ''beforeReconnecting'', [PStr ''10.0.0.1'']), (1, ''beforeReconnecting'', [PStr ''10.0.0.1''])]"
    by (simp add: p o)
  from t r2 have "invokes (effects_since index_DB
        (snd (afterReconnecting demo_core (PStr ''10.0.0.1'') index_DB))) =
      map (\<lambda>p. (oid p, ''afterReconnecting'', [PStr ''10.0.0.1''])) (activePlugins index_DB)"
    by blast
  then have 2: "invokes (effects_since index_DB
        (snd (afterReconnecting demo_core (PStr ''10.0.0.1'') index_DB))) =
     [(1, ''afterReconnecting'', [PStr ''10.0.0.1''])]"
    by (simp add: a o)
  from t' r3 have "invokes (effects_since index_DB
        (snd (downloadFailed demo_core (PObj 7) index_DB))) =
        inline_calls ''downloadFailed'' [PObj 7] (activePlugins index_DB)"
    and 4: "submits (effects_since index_DB
        (snd (downloadFailed demo_core (PObj 7) index_DB))) = []"
    by blast+
  then have 3: "invokes (effects_since index_DB
        (snd (downloadFailed demo_core (PObj 7) index_DB))) =
     [(1, ''downloadFailed'', [PObj 7])]"
    by (simp add: a f)
  from u have "submits (effects_since (manager_of [addon_A, addon_X, addon_B])
        (snd (downloadFinished demo_core (PObj 7) (manager_of [addon_A, addon_X, addon_B])))) =
      thread_submits ''downloadFinished'' [PObj 7]
        (activePlugins (manager_of [addon_A, addon_X, addon_B]))"
    and "invokes (effects_since (manager_of [addon_A, addon_X, addon_B])
        (snd (downloadFinished demo_core (PObj 7) (manager_of [addon_A, addon_X, addon_B])))) =
      thread_calls ''downloadFinished'' [PObj 7]
        (activePlugins (manager_of [addon_A, addon_X, addon_B]))"
    by blast+
  then have 5: "submits (effects_since (manager_of [addon_A, addon_X, addon_B])
        (snd (downloadFinished demo_core (PObj 7) (manager_of [addon_A, addon_X, addon_B])))) =
     [(0, ''downloadFinished'', [PObj 7])]"
    and 6: "invokes (effects_since (manager_of [addon_A, addon_X, addon_B])
        (snd (downloadFinished demo_core (PObj 7) (manager_of [addon_A, addon_X, addon_B])))) =
     [(3, ''downloadFinished'', [PObj 7])]"
    by (simp_all add: am tc ts)
  show ?thesis
    by (intro conjI p d a r n 1 2 3 4 am 5 6)
qed

text \<open>
  C9.  Claimed: \<^verbatim>\<open>beforeReconnecting\<close> runs without the lock, like \<^verbatim>\<open>coreReady\<close> and
  \<^verbatim>\<open>coreExiting\<close>.  In the source \<^verbatim>\<open>beforeReconnecting\<close> carries the decorator
  \<^verbatim>\<open>@lock\<close> (line 234): on the addon \<open>B\<close> its trace starts by taking the lock and ends
  by releasing it.
\<close>

theorem beforeReconnecting_takes_lock:
  "trace (snd (beforeReconnecting demo_core (PStr ''10.0.0.1'') (manager_of [addon_B]))) =
     [Acquire, Invoke 1 ''beforeReconnecting'' [PStr ''10.0.0.1''], Release]"
  by (simp add: beforeReconnecting_def lock_def and_then_def call_method_def
        dispatchEvent_def emit_def manager_of_def addon_B_def plain_attr_def returns_none_def)

text \<open>
  C9, as the source has it.  \<^verbatim>\<open>downloadPreparing\<close>, \<^verbatim>\<open>downloadFinished\<close>,
  \<^verbatim>\<open>downloadFailed\<close>, \<^verbatim>\<open>packageFinished\<close>, \<^verbatim>\<open>beforeReconnecting\<close> and
  \<^verbatim>\<open>afterReconnecting\<close> take the lock first and release it last, whatever happens in
  between (also when an addon raises), and do not touch it in between;
  \<^verbatim>\<open>coreReady\<close> and \<^verbatim>\<open>coreExiting\<close> never take it.
\<close>

theorem lock_taken_by_decorated_hooks:
  "(\<exists>mid. effects_since s (snd (downloadPreparing c pyfile s)) = Acquire # mid @ [Release]
       \<and> lock_free mid) \<and>
   (\<exists>mid. effects_since s (snd (downloadFinished c pyfile s)) = Acquire # mid @ [Release]
       \<and> lock_free mid) \<and>
   (\<exists>mid. effects_since s (snd (downloadFailed c pyfile s)) = Acquire # mid @ [Release]
       \<and> lock_free mid) \<and>
   (\<exists>mid. effects_since s (snd (packageFinished c package s)) = Acquire # mid @ [Release]
       \<and> lock_free mid) \<and>
   (\<exists>mid. effects_since s (snd (beforeReconnecting c ip s)) = Acquire # mid @ [Release]
       \<and> lock_free mid) \<and>
   (\<exists>mid. effects_since s (snd (afterReconnecting c ip s)) = Acquire # mid @ [Release]
       \<and> lock_free mid) \<and>
   lock_free (effects_since s (snd (coreReady c s))) \<and>
   lock_free (effects_since s (snd (coreExiting c s)))"
proof (intro conjI)
  show "\<exists>mid. effects_since s (snd (downloadPreparing c pyfile s)) = Acquire # mid @ [Release]
       \<and> lock_free mid"
    by (simp add: downloadPreparing_trace lock_free_hook_out lock_free_inline_step)
  show "\<exists>mid. effects_since s (snd (downloadFinished c pyfile s)) = Acquire # mid @ [Release]
       \<and> lock_free mid"
    by (simp add: downloadFinished_trace lock_free_hook_out lock_free_threaded_step)
  show "\<exists>mid. effects_since s (snd (downloadFailed c pyfile s)) = Acquire # mid @ [Release]
       \<and> lock_free mid"
    by (simp add: downloadFailed_trace lock_free_caught lock_free_hook_out lock_free_threaded_step)
  show "\<exists>mid. effects_since s (snd (packageFinished c package s)) = Acquire # mid @ [Release]
       \<and> lock_free mid"
    by (simp add: packageFinished_trace lock_free_hook_out lock_free_threaded_step)
  show "\<exists>mid. effects_since s (snd (beforeReconnecting c ip s)) = Acquire # mid @ [Release]
       \<and> lock_free mid"
    by (simp add: beforeReconnecting_trace lock_free_hook_out lock_free_call_out)
  show "\<exists>mid. effects_since s (snd (afterReconnecting c ip s)) = Acquire # mid @ [Release]
       \<and> lock_free mid"
    by (simp add: afterReconnecting_trace lock_free_hook_out lock_free_inline_step)
  show "lock_free (effects_since s (snd (coreReady c s)))"
    by (simp add: coreReady_trace lock_free_caught lock_free_hook_out lock_free_inline_step)
  show "lock_free (effects_since s (snd (coreExiting c s)))"
    by (simp add: coreExiting_trace lock_free_caught lock_free_hook_out lock_free_inline_step)
qed




end
